theory Spec2Isabelle
  imports Complex_Main "HOL-Library.Char_ord" "HOL-Library.List_Lexorder" "HOL-Library.Option_ord"
    "HOL-Library.Sublist"
begin

section \<open>Data model of the recommendation engine\<close>

text \<open>
  The engine of \<^verbatim>\<open>backend/recommender.py\<close> is the class \<^verbatim>\<open>MovieRecommender\<close>.
  Its attributes are a data frame of movies, the credits frame, the matrix of cosine
  similarities, the series \<^verbatim>\<open>indices\<close> (labels are movie ids, values are row
  positions) and the TF-IDF matrix.  Floating-point numbers are idealised as reals.
  A row of the movies frame keeps the columns the query operations read.
\<close>

record movie =
  movie_id :: int
  title :: string
  overview :: string
  genres :: string
  genres_display :: string
  vote_average :: real
  vote_count :: int
  popularity :: real
  release_date :: "string option"
  runtime :: "int option"
  revenue :: int

record engine =
  movies_df :: "movie list"
  credits_df :: "(string \<times> string \<times> string) list"
  cosine_sim :: "real list list"
  indices :: "(int \<times> nat) list"
  tfidf_matrix :: "real list list"

text \<open>The dictionary that \<^verbatim>\<open>get_recommendations\<close> builds for each neighbour; the key
  \<^verbatim>\<open>hybrid_score\<close> is only present after \<^verbatim>\<open>hybrid_recommendations\<close> has set it.\<close>

record recommendation =
  rec_id :: int
  rec_title :: string
  rec_overview :: string
  rec_genres :: string
  rec_vote_average :: real
  rec_popularity :: real
  rec_release_date :: string
  similarity_score :: real
  hybrid_score :: "real option"

section \<open>Python and pandas primitives\<close>

text \<open>A slice \<^verbatim>\<open>xs[start:stop]\<close>: a negative bound counts from the end, and both
  bounds are clamped to the length.  \<^verbatim>\<open>iloc[start:stop]\<close> slices a frame the same way.\<close>

definition py_slice :: "'a list \<Rightarrow> int \<Rightarrow> int \<Rightarrow> 'a list" where
  "py_slice xs start stop =
     (let n = int (length xs);
          lo = (if start < 0 then max 0 (start + n) else min start n);
          hi = (if stop < 0 then max 0 (stop + n) else min stop n)
      in take (nat (hi - lo)) (drop (nat lo) xs))"

text \<open>\<^verbatim>\<open>list(enumerate(row))\<close>.\<close>

definition enumerate_row :: "'a list \<Rightarrow> (nat \<times> 'a) list" where
  "enumerate_row xs = zip [0..<length xs] xs"

text \<open>\<^verbatim>\<open>sorted(xs, key=f, reverse=True)\<close>: the list is reversed, sorted by a stable
  ascending sort and reversed again, so elements with equal keys keep their order.\<close>

definition sorted_reverse :: "('a \<Rightarrow> 'k::linorder) \<Rightarrow> 'a list \<Rightarrow> 'a list" where
  "sorted_reverse f xs = rev (sort_key f (rev xs))"

text \<open>\<^verbatim>\<open>round(x, 2)\<close> on the idealised reals: the nearest multiple of 1/100, a tie
  going to the even one.  Python rounds the binary double that holds \<open>x\<close>, so on a
  decimal tie its result can be the other neighbour; what is proved below with
  \<open>round2\<close> uses only that rounding is monotone and leaves a rounded number as it is.\<close>

definition round_half_even :: "real \<Rightarrow> int" where
  "round_half_even x =
     (let f = \<lfloor>x\<rfloor>; d = x - of_int f
      in if d < 1 / 2 then f else if 1 / 2 < d then f + 1
         else if even f then f else f + 1)"

definition round2 :: "real \<Rightarrow> real" where
  "round2 x = of_int (round_half_even (x * 100)) / 100"

text \<open>Label lookup \<^verbatim>\<open>series[key]\<close> in a series with integer labels: a missing label
  raises \<^verbatim>\<open>KeyError\<close>, a label that occurs once gives its value, and a label that
  occurs several times gives the sub-series of all its values.\<close>

datatype lookup = Missing | Scalar nat | Many "nat list"

definition series_getitem :: "(int \<times> nat) list \<Rightarrow> int \<Rightarrow> lookup" where
  "series_getitem s k =
     (case map snd (filter (\<lambda>p. fst p = k) s) of
        [] \<Rightarrow> Missing
      | [v] \<Rightarrow> Scalar v
      | vs \<Rightarrow> Many vs)"

text \<open>\<^verbatim>\<open>key in series.index\<close>.\<close>

definition in_index :: "(int \<times> nat) list \<Rightarrow> int \<Rightarrow> bool" where
  "in_index s k = (k \<in> fst ` set s)"

section \<open>Content recommendations\<close>

text \<open>The overview shown with a recommendation: cut to 200 characters and followed by
  three dots when it is longer.\<close>

definition rec_overview_of :: "string \<Rightarrow> string" where
  "rec_overview_of ov = (if 200 < length ov then take 200 ov @ ''...'' else ov)"

definition str_of_date :: "string option \<Rightarrow> string" where
  "str_of_date d = (case d of None \<Rightarrow> ''nan'' | Some s \<Rightarrow> s)"

definition make_rec :: "movie \<Rightarrow> real \<Rightarrow> recommendation" where
  "make_rec m score =
     \<lparr> rec_id = movie_id m,
       rec_title = title m,
       rec_overview = rec_overview_of (overview m),
       rec_genres = genres_display m,
       rec_vote_average = vote_average m,
       rec_popularity = popularity m,
       rec_release_date = str_of_date (release_date m),
       similarity_score = round2 (score * 100),
       hybrid_score = None \<rparr>"

text \<open>The value of \<^verbatim>\<open>sim_scores\<close> after line 164: the enumerated row of the matrix,
  sorted by descending score, without its first entry and cut after \<^verbatim>\<open>top_n\<close> more.\<close>

definition sim_scores :: "real list \<Rightarrow> int \<Rightarrow> (nat \<times> real) list" where
  "sim_scores row top_n = py_slice (sorted_reverse snd (enumerate_row row)) 1 (top_n + 1)"

text \<open>The loop that builds the result.  \<^verbatim>\<open>iloc[i]\<close> raises \<^verbatim>\<open>IndexError\<close> for a
  position outside the frame, and the handler of \<^verbatim>\<open>get_recommendations\<close> turns every
  exception into the result \<^verbatim>\<open>None\<close>.\<close>

fun build_recs :: "movie list \<Rightarrow> (nat \<times> real) list \<Rightarrow> recommendation list option" where
  "build_recs df [] = Some []"
| "build_recs df ((i, score) # ps) =
     (if i < length df
      then map_option ((#) (make_rec (df ! i) score)) (build_recs df ps)
      else None)"

text \<open>\<^verbatim>\<open>get_recommendations\<close>.  An unknown id raises \<^verbatim>\<open>KeyError\<close>, which is answered
  with \<^verbatim>\<open>None\<close>.  When the id labels several rows, the rows of the matrix are compared
  as arrays by the sort, which raises \<^verbatim>\<open>ValueError\<close>; a position outside the matrix
  raises \<^verbatim>\<open>IndexError\<close>; both are answered with \<^verbatim>\<open>None\<close> too.\<close>

definition get_recommendations :: "engine \<Rightarrow> int \<Rightarrow> int \<Rightarrow> recommendation list option" where
  "get_recommendations e mid top_n =
     (case series_getitem (indices e) mid of
        Missing \<Rightarrow> None
      | Many vs \<Rightarrow> None
      | Scalar idx \<Rightarrow>
          if idx < length (cosine_sim e)
          then build_recs (movies_df e) (sim_scores (cosine_sim e ! idx) top_n)
          else None)"

section \<open>Hybrid recommendations\<close>

text \<open>Exceptions that leave \<^verbatim>\<open>hybrid_recommendations\<close> and \<^verbatim>\<open>because_you_liked\<close>,
  which have no handler of their own.\<close>

datatype py_error = IndexError | KeyError | TypeError

text \<open>\<^verbatim>\<open>float(self.cosine_sim[rec_idx][self.indices[mid]])\<close>, where \<open>rl\<close> is the value
  of \<^verbatim>\<open>rec_idx\<close>.  Both positions must be scalars inside the matrix.  When one of the
  two lookups gives a sub-series (a label that occurs several times), the operand of
  \<^verbatim>\<open>float\<close> is an array and the call raises; the model reports that as
  \<^verbatim>\<open>TypeError\<close>, also where the indexing itself fails first with \<^verbatim>\<open>IndexError\<close>.
  No statement below depends on which of the two it is.\<close>

definition sim_at :: "engine \<Rightarrow> lookup \<Rightarrow> int \<Rightarrow> py_error + real" where
  "sim_at e rl mid =
     (case rl of
        Missing \<Rightarrow> Inl KeyError
      | Many vs \<Rightarrow> Inl TypeError
      | Scalar i \<Rightarrow>
          (case series_getitem (indices e) mid of
             Missing \<Rightarrow> Inl KeyError
           | Many vs \<Rightarrow> Inl TypeError
           | Scalar j \<Rightarrow>
               if i < length (cosine_sim e) \<and> j < length (cosine_sim e ! i)
               then Inr (cosine_sim e ! i ! j)
               else Inl IndexError))"

text \<open>The loop over \<^verbatim>\<open>liked_ids\<close>, with the running value of \<^verbatim>\<open>collab_boost\<close>.\<close>

fun liked_loop :: "engine \<Rightarrow> lookup \<Rightarrow> int list \<Rightarrow> real \<Rightarrow> py_error + real" where
  "liked_loop e rl [] boost = Inr boost"
| "liked_loop e rl (lid # lids) boost =
     (if in_index (indices e) lid
      then (case sim_at e rl lid of
              Inl err \<Rightarrow> Inl err
            | Inr s \<Rightarrow> liked_loop e rl lids (boost + s))
      else liked_loop e rl lids boost)"

text \<open>The loop over \<^verbatim>\<open>disliked_ids\<close>.\<close>

fun disliked_loop :: "engine \<Rightarrow> lookup \<Rightarrow> int list \<Rightarrow> real \<Rightarrow> py_error + real" where
  "disliked_loop e rl [] boost = Inr boost"
| "disliked_loop e rl (did # dids) boost =
     (if in_index (indices e) did
      then (case sim_at e rl did of
              Inl err \<Rightarrow> Inl err
            | Inr s \<Rightarrow> disliked_loop e rl dids (boost - s * (1 / 2)))
      else disliked_loop e rl dids boost)"

text \<open>The value of \<^verbatim>\<open>collab_boost\<close> for one recommendation.\<close>

definition collab_boost :: "engine \<Rightarrow> int list \<Rightarrow> int list \<Rightarrow> recommendation \<Rightarrow> py_error + real" where
  "collab_boost e liked_ids disliked_ids r =
     (if in_index (indices e) (rec_id r)
      then (case liked_loop e (series_getitem (indices e) (rec_id r)) liked_ids 0 of
              Inl err \<Rightarrow> Inl err
            | Inr b \<Rightarrow> disliked_loop e (series_getitem (indices e) (rec_id r)) disliked_ids b)
      else Inr 0)"

text \<open>The value of the variable \<^verbatim>\<open>hybrid\<close>, from the boost and the stored content
  score.\<close>

definition hybrid_value :: "real \<Rightarrow> recommendation \<Rightarrow> real \<Rightarrow> real" where
  "hybrid_value alpha r boost =
     (let content_score = similarity_score r / 100
      in alpha * content_score + (1 - alpha) * max 0 boost)"

text \<open>One pass of the loop body: the boost, the blend, and the assignment of
  \<^verbatim>\<open>rec['hybrid_score']\<close>.\<close>

definition score_rec ::
  "engine \<Rightarrow> real \<Rightarrow> int list \<Rightarrow> int list \<Rightarrow> recommendation \<Rightarrow> py_error + recommendation" where
  "score_rec e alpha liked_ids disliked_ids r =
     (case collab_boost e liked_ids disliked_ids r of
        Inl err \<Rightarrow> Inl err
      | Inr b \<Rightarrow> Inr (r\<lparr>hybrid_score := Some (round2 (hybrid_value alpha r b * 100))\<rparr>))"

text \<open>The loop over \<^verbatim>\<open>content_recs\<close>; it stops at the first exception.\<close>

fun score_all ::
  "engine \<Rightarrow> real \<Rightarrow> int list \<Rightarrow> int list \<Rightarrow> recommendation list
     \<Rightarrow> py_error + recommendation list" where
  "score_all e alpha liked_ids disliked_ids [] = Inr []"
| "score_all e alpha liked_ids disliked_ids (r # rs) =
     (case score_rec e alpha liked_ids disliked_ids r of
        Inl err \<Rightarrow> Inl err
      | Inr r' \<Rightarrow>
          (case score_all e alpha liked_ids disliked_ids rs of
             Inl err \<Rightarrow> Inl err
           | Inr rs' \<Rightarrow> Inr (r' # rs')))"

text \<open>The two comprehensions over \<^verbatim>\<open>user_ratings.items()\<close>; the dictionary is the
  list of its items in insertion order.\<close>

definition liked_ids_of :: "(int \<times> real) list \<Rightarrow> int list" where
  "liked_ids_of user_ratings = map fst (filter (\<lambda>p. 35 / 10 \<le> snd p) user_ratings)"

definition disliked_ids_of :: "(int \<times> real) list \<Rightarrow> int list" where
  "disliked_ids_of user_ratings = map fst (filter (\<lambda>p. snd p < 3) user_ratings)"

text \<open>\<^verbatim>\<open>hybrid_recommendations\<close>.  \<^verbatim>\<open>not content_recs\<close> holds for \<^verbatim>\<open>None\<close> and for
  the empty list.\<close>

definition hybrid_recommendations ::
  "engine \<Rightarrow> int \<Rightarrow> (int \<times> real) list \<Rightarrow> int \<Rightarrow> real
     \<Rightarrow> py_error + recommendation list option" where
  "hybrid_recommendations e mid user_ratings top_n alpha =
     (case get_recommendations e mid (top_n * 3) of
        None \<Rightarrow> Inr None
      | Some [] \<Rightarrow> Inr None
      | Some content_recs \<Rightarrow>
          (case score_all e alpha (liked_ids_of user_ratings) (disliked_ids_of user_ratings)
                  content_recs of
             Inl err \<Rightarrow> Inl err
           | Inr scored \<Rightarrow> Inr (Some (py_slice (sorted_reverse hybrid_score scored) 0 top_n))))"

subsection \<open>The scoring rule in the words of the specification\<close>

text \<open>The similarity of two items given by their ids, read through the index mapping.\<close>

definition sim_of_ids :: "engine \<Rightarrow> int \<Rightarrow> int \<Rightarrow> real" where
  "sim_of_ids e c p =
     (case (series_getitem (indices e) c, series_getitem (indices e) p) of
        (Scalar i, Scalar j) \<Rightarrow> cosine_sim e ! i ! j
      | _ \<Rightarrow> 0)"

text \<open>Liked items have a score of at least 3.5, disliked items a score below 3.0;
  preference entries whose id is not in the corpus are skipped.\<close>

definition spec_liked :: "engine \<Rightarrow> (int \<times> real) list \<Rightarrow> int list" where
  "spec_liked e prefs = [p. (p, s) \<leftarrow> prefs, 35 / 10 \<le> s, in_index (indices e) p]"

definition spec_disliked :: "engine \<Rightarrow> (int \<times> real) list \<Rightarrow> int list" where
  "spec_disliked e prefs = [p. (p, s) \<leftarrow> prefs, s < 3, in_index (indices e) p]"

text \<open>The collaborative boost of candidate \<open>c\<close>: the sum of its similarities to the
  liked items minus half the sum of its similarities to the disliked items.\<close>

definition spec_boost :: "engine \<Rightarrow> (int \<times> real) list \<Rightarrow> int \<Rightarrow> real" where
  "spec_boost e prefs c =
     (\<Sum>p \<leftarrow> spec_liked e prefs. sim_of_ids e c p)
       - (\<Sum>p \<leftarrow> spec_disliked e prefs. sim_of_ids e c p) / 2"

definition spec_final_score :: "real \<Rightarrow> real \<Rightarrow> real \<Rightarrow> real" where
  "spec_final_score alpha content_score boost =
     alpha * content_score + (1 - alpha) * max 0 boost"

text \<open>The candidate with its final score stored the way the code stores scores: as a
  percentage rounded to two decimals under the key \<^verbatim>\<open>hybrid_score\<close>.\<close>

definition spec_scored :: "engine \<Rightarrow> real \<Rightarrow> (int \<times> real) list \<Rightarrow> recommendation \<Rightarrow> recommendation" where
  "spec_scored e alpha prefs c =
     c\<lparr>hybrid_score :=
         Some (round2 (spec_final_score alpha (similarity_score c / 100)
                         (spec_boost e prefs (rec_id c)) * 100))\<rparr>"

section \<open>Because you liked\<close>

text \<open>\<^verbatim>\<open>random.choice(valid)\<close> reads the element at a position below the length that
  the generator draws; the draw is the argument \<open>draw\<close>, reduced below the length.
  \<^verbatim>\<open>iloc[0]\<close> on a selection without rows raises \<^verbatim>\<open>IndexError\<close>.  The result is the
  pair of the source title and the recommendations, or \<^verbatim>\<open>(None, None)\<close>.\<close>

definition because_you_liked ::
  "engine \<Rightarrow> int list \<Rightarrow> int \<Rightarrow> nat
     \<Rightarrow> py_error + (string option \<times> recommendation list option)" where
  "because_you_liked e movie_ids top_n draw =
     (let valid = filter (in_index (indices e)) movie_ids
      in if valid = [] then Inr (None, None)
         else
           let source_id = valid ! (draw mod length valid);
               recs = get_recommendations e source_id top_n
           in (case filter (\<lambda>m. movie_id m = source_id) (movies_df e) of
                 [] \<Rightarrow> Inl IndexError
               | m # ms \<Rightarrow> Inr (Some (title m), recs)))"

section \<open>Well-formed engines\<close>

text \<open>What \<^verbatim>\<open>_build_model\<close> establishes, together with the requirement of the data
  model that ids are unique: the index series labels position \<open>i\<close> with the id of row
  \<open>i\<close>, and the similarity matrix is square with one row per movie.\<close>

definition wf_engine :: "engine \<Rightarrow> bool" where
  "wf_engine e \<longleftrightarrow>
     indices e = zip (map movie_id (movies_df e)) [0..<length (movies_df e)]
     \<and> distinct (map movie_id (movies_df e))
     \<and> length (cosine_sim e) = length (movies_df e)
     \<and> list_all (\<lambda>row. length row = length (movies_df e)) (cosine_sim e)"

section \<open>Catalogue queries\<close>

text \<open>The dictionary built by \<^verbatim>\<open>_format_single\<close>.\<close>

record movie_out =
  out_id :: int
  out_title :: string
  out_overview :: string
  out_genres :: string
  out_vote_average :: real
  out_vote_count :: int
  out_popularity :: real
  out_release_date :: string
  out_runtime :: "int option"

definition format_single :: "movie \<Rightarrow> movie_out" where
  "format_single m =
     \<lparr> out_id = movie_id m,
       out_title = title m,
       out_overview =
         (if 150 < length (overview m) then take 150 (overview m) @ ''...'' else overview m),
       out_genres = genres_display m,
       out_vote_average = vote_average m,
       out_vote_count = vote_count m,
       out_popularity = popularity m,
       out_release_date = str_of_date (release_date m),
       out_runtime = runtime m \<rparr>"

definition format_movies :: "movie list \<Rightarrow> movie_out list" where
  "format_movies df = map format_single df"

text \<open>\<^verbatim>\<open>DataFrame.nlargest(n, column)\<close> as pandas documents it: the first \<open>n\<close> rows in
  descending order of the column, rows with equal values in their original order
  (\<^verbatim>\<open>keep='first'\<close>).\<close>

definition nlargest :: "int \<Rightarrow> ('a \<Rightarrow> 'k::linorder) \<Rightarrow> 'a list \<Rightarrow> 'a list" where
  "nlargest n col df = take (nat n) (sorted_reverse col df)"

definition get_popular_movies :: "engine \<Rightarrow> int \<Rightarrow> int \<Rightarrow> movie_out list \<times> nat" where
  "get_popular_movies e limit offset =
     (let popular = py_slice (nlargest (offset + limit) popularity (movies_df e))
                      offset (offset + limit);
          total = length (movies_df e)
      in (format_movies popular, total))"

definition get_top_rated_movies :: "engine \<Rightarrow> int \<Rightarrow> int \<Rightarrow> int \<Rightarrow> movie_out list \<times> nat" where
  "get_top_rated_movies e limit min_votes offset =
     (let qualified = filter (\<lambda>m. min_votes \<le> vote_count m) (movies_df e);
          top_rated = py_slice (nlargest (offset + limit) vote_average qualified)
                        offset (offset + limit)
      in (format_movies top_rated, length qualified))"

subsection \<open>Pattern search\<close>

text \<open>\<^verbatim>\<open>Series.str.contains(pat, case=False, na=False)\<close> searches each string for the
  regular expression \<open>pat\<close>, ignoring case, since \<^verbatim>\<open>regex=True\<close> is the default.  The
  model covers the patterns made of ordinary characters and of the dot, which stands
  for any character but the newline; a pattern with another special character of the
  regular-expression syntax lies outside the model and gives \<open>None\<close>.  Characters are
  bytes, and ignoring case maps the ASCII capitals to small letters, which is what the
  regular expressions do on strings of ASCII characters.\<close>

datatype pat = Lit char | AnyChar

definition regex_special :: "char list" where
  "regex_special = ''^$*+?{}[]|()'' @ [CHR 0x5C]"

definition lower_char :: "char \<Rightarrow> char" where
  "lower_char c =
     (case map_of (zip ''ABCDEFGHIJKLMNOPQRSTUVWXYZ'' ''abcdefghijklmnopqrstuvwxyz'') c of
        None \<Rightarrow> c
      | Some l \<Rightarrow> l)"

definition compile_pattern :: "string \<Rightarrow> pat list option" where
  "compile_pattern q =
     (if list_ex (\<lambda>c. c \<in> set regex_special) q then None
      else Some (map (\<lambda>c. if c = CHR ''.'' then AnyChar else Lit c) q))"

fun elem_match :: "pat \<Rightarrow> char \<Rightarrow> bool" where
  "elem_match (Lit a) c = (lower_char a = lower_char c)"
| "elem_match AnyChar c = (c \<noteq> CHR 0x0A)"

fun match_here :: "pat list \<Rightarrow> string \<Rightarrow> bool" where
  "match_here [] s = True"
| "match_here (p # ps) [] = False"
| "match_here (p # ps) (c # cs) = (elem_match p c \<and> match_here ps cs)"

fun re_search :: "pat list \<Rightarrow> string \<Rightarrow> bool" where
  "re_search ps [] = match_here ps []"
| "re_search ps (c # cs) = (match_here ps (c # cs) \<or> re_search ps cs)"

definition str_contains :: "string \<Rightarrow> ('a \<Rightarrow> string) \<Rightarrow> 'a list \<Rightarrow> 'a list option" where
  "str_contains q col df =
     (case compile_pattern q of
        None \<Rightarrow> None
      | Some ps \<Rightarrow> Some (filter (\<lambda>m. re_search ps (col m)) df))"




definition search_movies :: "engine \<Rightarrow> string \<Rightarrow> int \<Rightarrow> int \<Rightarrow> (movie_out list \<times> nat) option" where
  "search_movies e query limit offset =
     (case str_contains query title (movies_df e) of
        None \<Rightarrow> None
      | Some all_results \<Rightarrow>
          let total = length all_results;
              results = py_slice all_results offset (offset + limit)
          in Some (format_movies results, total))"

subsection \<open>Filtering\<close>

text \<open>The arguments of \<^verbatim>\<open>filter_movies\<close>.  The bounds on years and runtimes are
  Python integers or \<^verbatim>\<open>None\<close>; a bound is used when it is truthy, that is, neither
  \<^verbatim>\<open>None\<close> nor zero.\<close>

record filter_args =
  genre :: "string option"
  min_rating :: real
  max_rating :: real
  year_from :: "int option"
  year_to :: "int option"
  min_runtime :: "int option"
  max_runtime :: "int option"
  sort_by :: string
  sort_order :: string

text \<open>\<^verbatim>\<open>pd.to_numeric(release_date.str[:4], errors='coerce')\<close>: the number written by
  the first four characters, or NaN (\<open>None\<close>).  The model reads strings of decimal
  digits and coerces every other string to NaN; \<^verbatim>\<open>pd.to_numeric\<close> also reads signs,
  blanks around the number and exponents.\<close>

definition is_digit :: "char \<Rightarrow> bool" where
  "is_digit c \<longleftrightarrow> CHR ''0'' \<le> c \<and> c \<le> CHR ''9''"

definition digits_value :: "string \<Rightarrow> int" where
  "digits_value s = foldl (\<lambda>a c. 10 * a + (int (of_char c) - 48)) 0 s"

definition year_of :: "movie \<Rightarrow> int option" where
  "year_of m =
     (case release_date m of
        None \<Rightarrow> None
      | Some s \<Rightarrow>
          let y = take 4 s
          in if y \<noteq> [] \<and> list_all is_digit y then Some (digits_value y) else None)"

text \<open>\<^verbatim>\<open>if bound: filtered = filtered[filtered[col] >= int(bound)]\<close> and its mirror
  image; a comparison with NaN is false.\<close>

definition keep_from :: "int option \<Rightarrow> ('a \<Rightarrow> int option) \<Rightarrow> 'a list \<Rightarrow> 'a list" where
  "keep_from bound col df =
     (case bound of
        None \<Rightarrow> df
      | Some b \<Rightarrow>
          if b = 0 then df
          else filter (\<lambda>m. case col m of None \<Rightarrow> False | Some v \<Rightarrow> b \<le> v) df)"

definition keep_upto :: "int option \<Rightarrow> ('a \<Rightarrow> int option) \<Rightarrow> 'a list \<Rightarrow> 'a list" where
  "keep_upto bound col df =
     (case bound of
        None \<Rightarrow> df
      | Some b \<Rightarrow>
          if b = 0 then df
          else filter (\<lambda>m. case col m of None \<Rightarrow> False | Some v \<Rightarrow> v \<le> b) df)"

text \<open>\<^verbatim>\<open>sort_values(column, ascending=...)\<close>: rows whose key is missing go last; the
  order among rows with equal keys, which pandas does not fix for its default sorting
  kind, is the order of a stable sort here.\<close>

definition sort_values :: "('a \<Rightarrow> 'k::linorder option) \<Rightarrow> bool \<Rightarrow> 'a list \<Rightarrow> 'a list" where
  "sort_values col ascending df =
     (let present = filter (\<lambda>m. col m \<noteq> None) df;
          missing = filter (\<lambda>m. col m = None) df
      in (if ascending then sort_key col present else sorted_reverse col present) @ missing)"

text \<open>The choice of the sort column; an unknown key falls back to the popularity.
  The argument \<open>row\<close> reads the movie of a row of the frame.\<close>

definition sort_frame :: "('a \<Rightarrow> movie) \<Rightarrow> string \<Rightarrow> bool \<Rightarrow> 'a list \<Rightarrow> 'a list" where
  "sort_frame row key ascending df =
     (if key = ''rating'' then sort_values (\<lambda>r. Some (vote_average (row r))) ascending df
      else if key = ''release_date'' then sort_values (\<lambda>r. release_date (row r)) ascending df
      else if key = ''revenue'' then sort_values (\<lambda>r. Some (revenue (row r))) ascending df
      else if key = ''title'' then sort_values (\<lambda>r. Some (title (row r))) ascending df
      else sort_values (\<lambda>r. Some (popularity (row r))) ascending df)"

text \<open>\<^verbatim>\<open>if genre: filtered = filtered[filtered['genres'].str.contains(genre, ...)]\<close>:
  the filter is skipped for \<^verbatim>\<open>None\<close> and for the empty string.\<close>

definition genre_filter :: "string option \<Rightarrow> ('a \<Rightarrow> string) \<Rightarrow> 'a list \<Rightarrow> 'a list option" where
  "genre_filter g col df =
     (case g of
        None \<Rightarrow> Some df
      | Some pat \<Rightarrow> if pat = [] then Some df else str_contains pat col df)"

text \<open>The frame after all the filters of \<^verbatim>\<open>filter_movies\<close>, before sorting, for a
  corpus whose column \<^verbatim>\<open>release_date\<close> holds strings.\<close>

definition filtered_frame :: "engine \<Rightarrow> filter_args \<Rightarrow> movie list option" where
  "filtered_frame e a =
     (let rated = filter (\<lambda>m. min_rating a \<le> vote_average m \<and> vote_average m \<le> max_rating a)
                    (movies_df e)
      in (case genre_filter (genre a) genres rated of
            None \<Rightarrow> None
          | Some by_genre \<Rightarrow>
              Some (keep_upto (max_runtime a) runtime
                     (keep_from (min_runtime a) runtime
                       (keep_upto (year_to a) year_of
                         (keep_from (year_from a) year_of by_genre))))))"

definition filter_movies :: "engine \<Rightarrow> filter_args \<Rightarrow> int \<Rightarrow> int \<Rightarrow> (movie_out list \<times> nat) option" where
  "filter_movies e a limit offset =
     (case filtered_frame e a of
        None \<Rightarrow> None
      | Some filtered \<Rightarrow>
          let total = length filtered;
              sorted_df = sort_frame (\<lambda>m. m) (sort_by a) (sort_order a = ''asc'') filtered;
              page = py_slice sorted_df offset (offset + limit)
          in Some (format_movies page, total))"

subsection \<open>Genres and lookup by ids\<close>

text \<open>\<^verbatim>\<open>get_all_genres\<close>.  The argument \<open>names_of\<close> stands for the decoding of one
  \<^verbatim>\<open>genres\<close> cell by \<^verbatim>\<open>json.loads\<close>: the names that the inner loop adds before it
  ends or an exception is swallowed.\<close>

definition get_all_genres :: "(string \<Rightarrow> string list) \<Rightarrow> engine \<Rightarrow> string list" where
  "get_all_genres names_of e = sort (remdups (concat (map (\<lambda>m. names_of (genres m)) (movies_df e))))"

text \<open>\<^verbatim>\<open>get_movies_by_ids\<close>: a later row with the same id overwrites the earlier one
  in \<^verbatim>\<open>movie_map\<close>.\<close>

definition get_movies_by_ids :: "engine \<Rightarrow> int list \<Rightarrow> movie_out list" where
  "get_movies_by_ids e movie_ids =
     (let subset = filter (\<lambda>m. movie_id m \<in> set movie_ids) (movies_df e);
          movie_map = fold (\<lambda>m mp. mp(movie_id m \<mapsto> format_single m)) subset Map.empty
      in List.map_filter movie_map movie_ids)"

subsection \<open>Paging\<close>

text \<open>The pages at offsets \<open>0\<close>, \<open>limit\<close>, \<open>2 * limit\<close>, ... of a paginated operation,
  \<open>n\<close> of them, concatenated.\<close>

definition concat_pages :: "(int \<Rightarrow> int \<Rightarrow> 'a list) \<Rightarrow> int \<Rightarrow> nat \<Rightarrow> 'a list" where
  "concat_pages page limit n = concat (map (\<lambda>i. page limit (int i * limit)) [0..<n])"

text \<open>The page and the total of a result that may be missing.\<close>

definition page_of :: "('a list \<times> nat) option \<Rightarrow> 'a list" where
  "page_of r = (case r of None \<Rightarrow> [] | Some (page, n) \<Rightarrow> page)"

definition total_of :: "('a list \<times> nat) option \<Rightarrow> nat" where
  "total_of r = (case r of None \<Rightarrow> 0 | Some (page, n) \<Rightarrow> n)"

section \<open>Objects and the store\<close>

text \<open>
  The queries above are functions of the engine.  To state that a query leaves the
  engine as it was, the objects are put into a store: a list of objects, where the
  address of an object is its position.  The attributes of the engine hold addresses.
  A pandas call that returns a new frame, and the construction of a dictionary or a
  list, put a new object at the end of the store; an assignment to a column of a frame
  or to a key of a dictionary, and \<^verbatim>\<open>list.sort\<close>, replace the object at its address.
  A row of a frame carries its cell of the column \<^verbatim>\<open>_year\<close> when the frame has that
  column.
\<close>

type_synonym frame_row = "movie \<times> int option option"

datatype obj =
    Frame "frame_row list"
  | Credits "(string \<times> string \<times> string) list"
  | Matrix "real list list"
  | Series "(int \<times> nat) list"
  | Dict recommendation
  | PyList "nat list"

record world =
  movies_ref :: nat
  credits_ref :: nat
  sim_ref :: nat
  indices_ref :: nat
  tfidf_ref :: nat
  heap :: "obj list"

text \<open>The engine that the attributes denote, when each attribute points to an object
  of its kind and the movies frame has no column \<^verbatim>\<open>_year\<close>.\<close>

definition engine_of :: "world \<Rightarrow> engine option" where
  "engine_of w =
     (if movies_ref w < length (heap w) \<and> credits_ref w < length (heap w)
         \<and> sim_ref w < length (heap w) \<and> indices_ref w < length (heap w)
         \<and> tfidf_ref w < length (heap w)
      then
        (case heap w ! movies_ref w of
           Frame rows \<Rightarrow>
             (case heap w ! credits_ref w of
                Credits c \<Rightarrow>
                  (case heap w ! sim_ref w of
                     Matrix m \<Rightarrow>
                       (case heap w ! indices_ref w of
                          Series s \<Rightarrow>
                            (case heap w ! tfidf_ref w of
                               Matrix t \<Rightarrow>
                                 if list_all (\<lambda>r. snd r = None) rows
                                 then Some \<lparr> movies_df = map fst rows, credits_df = c,
                                             cosine_sim = m, indices = s, tfidf_matrix = t \<rparr>
                                 else None
                             | _ \<Rightarrow> None)
                        | _ \<Rightarrow> None)
                   | _ \<Rightarrow> None)
              | _ \<Rightarrow> None)
         | _ \<Rightarrow> None)
      else None)"

text \<open>A query leaves the engine alone when the attributes point where they pointed
  and every object that was in the store is still there, unchanged.\<close>

definition engine_untouched :: "world \<Rightarrow> world \<Rightarrow> bool" where
  "engine_untouched w w' \<longleftrightarrow>
     movies_ref w' = movies_ref w \<and> credits_ref w' = credits_ref w \<and> sim_ref w' = sim_ref w
     \<and> indices_ref w' = indices_ref w \<and> tfidf_ref w' = tfidf_ref w
     \<and> prefix (heap w) (heap w')"

subsection \<open>Reading and writing objects\<close>

definition new_object :: "obj \<Rightarrow> obj list \<Rightarrow> nat \<times> obj list" where
  "new_object v h = (length h, h @ [v])"

definition frame_at :: "obj list \<Rightarrow> nat \<Rightarrow> frame_row list" where
  "frame_at h a = (if a < length h then (case h ! a of Frame rows \<Rightarrow> rows | _ \<Rightarrow> []) else [])"

definition rec_at :: "obj list \<Rightarrow> nat \<Rightarrow> recommendation option" where
  "rec_at h a = (if a < length h then (case h ! a of Dict r \<Rightarrow> Some r | _ \<Rightarrow> None) else None)"

definition list_at :: "obj list \<Rightarrow> nat \<Rightarrow> nat list" where
  "list_at h a = (if a < length h then (case h ! a of PyList as \<Rightarrow> as | _ \<Rightarrow> []) else [])"

text \<open>The rows of the frame that a variable holds: the variable is a pair of the
  address and the store.\<close>

definition rows_of :: "nat \<times> obj list \<Rightarrow> frame_row list" where
  "rows_of s = frame_at (snd s) (fst s)"

text \<open>\<^verbatim>\<open>df[mask]\<close>: a new frame with the rows that the mask keeps.\<close>

definition df_select :: "(frame_row \<Rightarrow> bool) \<Rightarrow> nat \<times> obj list \<Rightarrow> nat \<times> obj list" where
  "df_select P s = new_object (Frame (filter P (rows_of s))) (snd s)"

text \<open>\<^verbatim>\<open>df['_year'] = pd.to_numeric(df['release_date'].str[:4], errors='coerce')\<close>: the
  column is written into the frame object itself.\<close>

definition df_set_year :: "nat \<times> obj list \<Rightarrow> nat \<times> obj list" where
  "df_set_year s =
     (fst s, (snd s)[fst s := Frame (map (\<lambda>r. (fst r, Some (year_of (fst r)))) (rows_of s))])"

text \<open>The cell of the column \<^verbatim>\<open>_year\<close> in a row.\<close>

definition year_cell :: "frame_row \<Rightarrow> int option" where
  "year_cell r = (case snd r of None \<Rightarrow> None | Some y \<Rightarrow> y)"

definition select_from ::
  "int option \<Rightarrow> (frame_row \<Rightarrow> int option) \<Rightarrow> nat \<times> obj list \<Rightarrow> nat \<times> obj list" where
  "select_from bound col s =
     (case bound of
        None \<Rightarrow> s
      | Some b \<Rightarrow>
          if b = 0 then s
          else df_select (\<lambda>r. case col r of None \<Rightarrow> False | Some v \<Rightarrow> b \<le> v) s)"

definition select_upto ::
  "int option \<Rightarrow> (frame_row \<Rightarrow> int option) \<Rightarrow> nat \<times> obj list \<Rightarrow> nat \<times> obj list" where
  "select_upto bound col s =
     (case bound of
        None \<Rightarrow> s
      | Some b \<Rightarrow>
          if b = 0 then s
          else df_select (\<lambda>r. case col r of None \<Rightarrow> False | Some v \<Rightarrow> v \<le> b) s)"

text \<open>The genre filter on a frame of the store.\<close>

definition select_genre :: "string option \<Rightarrow> nat \<times> obj list \<Rightarrow> (nat \<times> obj list) option" where
  "select_genre g s =
     (case g of
        None \<Rightarrow> Some s
      | Some pat \<Rightarrow>
          if pat = [] then Some s
          else (case compile_pattern pat of
                  None \<Rightarrow> None
                | Some ps \<Rightarrow> Some (df_select (\<lambda>r. re_search ps (genres (fst r))) s)))"

definition truthy :: "int option \<Rightarrow> bool" where
  "truthy b = (case b of None \<Rightarrow> False | Some n \<Rightarrow> n \<noteq> 0)"

subsection \<open>The catalogue queries on the store\<close>

text \<open>\<^verbatim>\<open>filter_movies\<close>, statement by statement.  The variable \<^verbatim>\<open>filtered\<close> first holds
  a copy of the movies frame, then the frames that the masks select; the column
  \<^verbatim>\<open>_year\<close> is added to the frame that the variable holds at that moment.  A genre
  pattern outside the modelled patterns ends the query after the first two frames.\<close>

definition filter_movies_st ::
  "filter_args \<Rightarrow> int \<Rightarrow> int \<Rightarrow> world \<Rightarrow> (movie_out list \<times> nat) option \<times> world" where
  "filter_movies_st a limit offset w =
     (let copied = new_object (Frame (frame_at (heap w) (movies_ref w))) (heap w);
          rated = df_select (\<lambda>r. min_rating a \<le> vote_average (fst r)
                                \<and> vote_average (fst r) \<le> max_rating a) copied
      in (case select_genre (genre a) rated of
            None \<Rightarrow> (None, w\<lparr>heap := snd rated\<rparr>)
          | Some by_genre \<Rightarrow>
              let by_year =
                    (if truthy (year_from a) \<or> truthy (year_to a)
                     then select_upto (year_to a) year_cell
                            (select_from (year_from a) year_cell (df_set_year by_genre))
                     else by_genre);
                  by_runtime = select_upto (max_runtime a) (\<lambda>r. runtime (fst r))
                                 (select_from (min_runtime a) (\<lambda>r. runtime (fst r)) by_year);
                  total = length (rows_of by_runtime);
                  sorted_df = new_object
                                (Frame (sort_frame fst (sort_by a) (sort_order a = ''asc'')
                                          (rows_of by_runtime)))
                                (snd by_runtime);
                  page = new_object (Frame (py_slice (rows_of sorted_df) offset (offset + limit)))
                           (snd sorted_df)
              in (Some (format_movies (map fst (rows_of page)), total), w\<lparr>heap := snd page\<rparr>)))"

definition get_popular_movies_st :: "int \<Rightarrow> int \<Rightarrow> world \<Rightarrow> (movie_out list \<times> nat) \<times> world" where
  "get_popular_movies_st limit offset w =
     (let largest = new_object
                      (Frame (nlargest (offset + limit) (\<lambda>r. popularity (fst r))
                                (frame_at (heap w) (movies_ref w))))
                      (heap w);
          popular = new_object (Frame (py_slice (rows_of largest) offset (offset + limit)))
                      (snd largest);
          total = length (frame_at (heap w) (movies_ref w))
      in ((format_movies (map fst (rows_of popular)), total), w\<lparr>heap := snd popular\<rparr>))"

definition get_top_rated_movies_st ::
  "int \<Rightarrow> int \<Rightarrow> int \<Rightarrow> world \<Rightarrow> (movie_out list \<times> nat) \<times> world" where
  "get_top_rated_movies_st limit min_votes offset w =
     (let qualified = df_select (\<lambda>r. min_votes \<le> vote_count (fst r)) (movies_ref w, heap w);
          largest = new_object
                      (Frame (nlargest (offset + limit) (\<lambda>r. vote_average (fst r))
                                (rows_of qualified)))
                      (snd qualified);
          top_rated = new_object (Frame (py_slice (rows_of largest) offset (offset + limit)))
                        (snd largest)
      in ((format_movies (map fst (rows_of top_rated)), length (rows_of qualified)),
          w\<lparr>heap := snd top_rated\<rparr>))"

definition search_movies_st ::
  "string \<Rightarrow> int \<Rightarrow> int \<Rightarrow> world \<Rightarrow> (movie_out list \<times> nat) option \<times> world" where
  "search_movies_st query limit offset w =
     (case compile_pattern query of
        None \<Rightarrow> (None, w)
      | Some ps \<Rightarrow>
          let all_results = df_select (\<lambda>r. re_search ps (title (fst r))) (movies_ref w, heap w);
              total = length (rows_of all_results);
              results = new_object
                          (Frame (py_slice (rows_of all_results) offset (offset + limit)))
                          (snd all_results)
          in (Some (format_movies (map fst (rows_of results)), total),
              w\<lparr>heap := snd results\<rparr>))"

text \<open>\<^verbatim>\<open>get_all_genres\<close> and \<^verbatim>\<open>get_movies_by_ids\<close> build a set and a dictionary of
  their own and return values made from them; they read the movies frame only.\<close>

definition get_all_genres_st :: "(string \<Rightarrow> string list) \<Rightarrow> world \<Rightarrow> string list \<times> world" where
  "get_all_genres_st names_of w =
     (sort (remdups (concat (map (\<lambda>r. names_of (genres (fst r)))
                               (frame_at (heap w) (movies_ref w))))), w)"

definition get_movies_by_ids_st :: "int list \<Rightarrow> world \<Rightarrow> movie_out list \<times> world" where
  "get_movies_by_ids_st movie_ids w =
     (let subset = df_select (\<lambda>r. movie_id (fst r) \<in> set movie_ids) (movies_ref w, heap w);
          movie_map = fold (\<lambda>r mp. mp(movie_id (fst r) \<mapsto> format_single (fst r)))
                        (rows_of subset) Map.empty
      in (List.map_filter movie_map movie_ids, w\<lparr>heap := snd subset\<rparr>))"

subsection \<open>The recommendation queries on the store\<close>

text \<open>The dictionaries of \<^verbatim>\<open>get_recommendations\<close>, one new object each, in order.\<close>

fun new_dicts :: "recommendation list \<Rightarrow> obj list \<Rightarrow> nat list \<times> obj list" where
  "new_dicts [] h = ([], h)"
| "new_dicts (r # rs) h =
     (case new_object (Dict r) h of
        (a, h1) \<Rightarrow> (case new_dicts rs h1 of (as, h2) \<Rightarrow> (a # as, h2)))"

text \<open>\<^verbatim>\<open>get_recommendations\<close>: the result is the address of the list
  \<^verbatim>\<open>recommendations\<close>, whose entries are the addresses of the dictionaries, or
  \<^verbatim>\<open>None\<close>.  The index series, the matrix and the frame are read only.\<close>

definition get_recommendations_st :: "int \<Rightarrow> int \<Rightarrow> world \<Rightarrow> nat option \<times> world" where
  "get_recommendations_st mid top_n w =
     (case engine_of w of
        None \<Rightarrow> (None, w)
      | Some e \<Rightarrow>
          (case get_recommendations e mid top_n of
             None \<Rightarrow> (None, w)
           | Some recs \<Rightarrow>
               (case new_dicts recs (heap w) of
                  (as, h1) \<Rightarrow>
                    (case new_object (PyList as) h1 of
                       (la, h2) \<Rightarrow> (Some la, w\<lparr>heap := h2\<rparr>)))))"

text \<open>The loop of \<^verbatim>\<open>hybrid_recommendations\<close> over the dictionaries:
  \<^verbatim>\<open>rec['hybrid_score'] = ...\<close> replaces the dictionary at its address.\<close>

fun score_loop ::
  "engine \<Rightarrow> real \<Rightarrow> int list \<Rightarrow> int list \<Rightarrow> nat list \<Rightarrow> obj list
     \<Rightarrow> py_error option \<times> obj list" where
  "score_loop e alpha liked_ids disliked_ids [] h = (None, h)"
| "score_loop e alpha liked_ids disliked_ids (a # as) h =
     (case rec_at h a of
        None \<Rightarrow> (Some TypeError, h)
      | Some r \<Rightarrow>
          (case score_rec e alpha liked_ids disliked_ids r of
             Inl err \<Rightarrow> (Some err, h)
           | Inr r' \<Rightarrow> score_loop e alpha liked_ids disliked_ids as (h[a := Dict r'])))"

text \<open>The key of \<^verbatim>\<open>content_recs.sort\<close>.\<close>

definition hybrid_key :: "obj list \<Rightarrow> nat \<Rightarrow> real option" where
  "hybrid_key h a = (case rec_at h a of None \<Rightarrow> None | Some r \<Rightarrow> hybrid_score r)"

text \<open>\<^verbatim>\<open>hybrid_recommendations\<close>: the dictionaries of the content pool are updated in
  place, the list is sorted in place, and its slice is a new list.  The result shows
  the dictionaries of that slice.\<close>

definition hybrid_recommendations_st ::
  "int \<Rightarrow> (int \<times> real) list \<Rightarrow> int \<Rightarrow> real \<Rightarrow> world
     \<Rightarrow> (py_error + recommendation list option) \<times> world" where
  "hybrid_recommendations_st mid user_ratings top_n alpha w =
     (case engine_of w of
        None \<Rightarrow> (Inr None, w)
      | Some e \<Rightarrow>
          (case get_recommendations_st mid (top_n * 3) w of
             (None, w1) \<Rightarrow> (Inr None, w1)
           | (Some la, w1) \<Rightarrow>
               let content_recs = list_at (heap w1) la
               in if content_recs = [] then (Inr None, w1)
                  else
                    (case score_loop e alpha (liked_ids_of user_ratings)
                            (disliked_ids_of user_ratings) content_recs (heap w1) of
                       (Some err, h2) \<Rightarrow> (Inl err, w1\<lparr>heap := h2\<rparr>)
                     | (None, h2) \<Rightarrow>
                         let sorted_recs = sorted_reverse (hybrid_key h2) content_recs;
                             h3 = h2[la := PyList sorted_recs];
                             top = new_object (PyList (py_slice sorted_recs 0 top_n)) h3
                         in (Inr (Some (List.map_filter (rec_at (snd top))
                                          (list_at (snd top) (fst top)))),
                             w1\<lparr>heap := snd top\<rparr>))))"

text \<open>\<^verbatim>\<open>because_you_liked\<close>: the source is chosen among the ids of the index, its
  recommendations are built by \<^verbatim>\<open>get_recommendations\<close>, and the title is read from a
  selection of the movies frame.\<close>

definition because_you_liked_st ::
  "int list \<Rightarrow> int \<Rightarrow> nat \<Rightarrow> world
     \<Rightarrow> (py_error + (string option \<times> recommendation list option)) \<times> world" where
  "because_you_liked_st movie_ids top_n draw w =
     (case engine_of w of
        None \<Rightarrow> (Inl TypeError, w)
      | Some e \<Rightarrow>
          let valid = filter (in_index (indices e)) movie_ids
          in if valid = [] then (Inr (None, None), w)
             else
               let source_id = valid ! (draw mod length valid)
               in (case get_recommendations_st source_id top_n w of
                     (recs, w1) \<Rightarrow>
                       let shown = map_option (\<lambda>la. List.map_filter (rec_at (heap w1))
                                                       (list_at (heap w1) la)) recs;
                           selected = df_select (\<lambda>r. movie_id (fst r) = source_id)
                                        (movies_ref w1, heap w1)
                       in (case rows_of selected of
                             [] \<Rightarrow> (Inl IndexError, w1\<lparr>heap := snd selected\<rparr>)
                           | r # rs \<Rightarrow>
                               (Inr (Some (title (fst r)), shown), w1\<lparr>heap := snd selected\<rparr>))))"

text \<open>A variable holds a frame made during the query that started with the store
  \<open>h0\<close>: its address lies behind \<open>h0\<close>, and \<open>h0\<close> is still the beginning of the
  store.\<close>

definition fresh_var :: "obj list \<Rightarrow> nat \<times> obj list \<Rightarrow> bool" where
  "fresh_var h0 s \<longleftrightarrow> prefix h0 (snd s) \<and> length h0 \<le> fst s \<and> fst s < length (snd s)"

subsection \<open>All queries\<close>

text \<open>The query operations with their arguments, and the world after a query.\<close>

datatype query =
    Recommend int int
  | Hybrid int "(int \<times> real) list" int real
  | BecauseYouLiked "int list" int nat
  | Popular int int
  | TopRated int int int
  | Search string int int
  | Filter filter_args int int
  | Genres
  | ByIds "int list"

fun run_query :: "(string \<Rightarrow> string list) \<Rightarrow> query \<Rightarrow> world \<Rightarrow> world" where
  "run_query names_of (Recommend mid top_n) w = snd (get_recommendations_st mid top_n w)"
| "run_query names_of (Hybrid mid user_ratings top_n alpha) w =
     snd (hybrid_recommendations_st mid user_ratings top_n alpha w)"
| "run_query names_of (BecauseYouLiked movie_ids top_n draw) w =
     snd (because_you_liked_st movie_ids top_n draw w)"
| "run_query names_of (Popular limit offset) w = snd (get_popular_movies_st limit offset w)"
| "run_query names_of (TopRated limit min_votes offset) w =
     snd (get_top_rated_movies_st limit min_votes offset w)"
| "run_query names_of (Search q limit offset) w = snd (search_movies_st q limit offset w)"
| "run_query names_of (Filter a limit offset) w = snd (filter_movies_st a limit offset w)"
| "run_query names_of Genres w = snd (get_all_genres_st names_of w)"
| "run_query names_of (ByIds movie_ids) w = snd (get_movies_by_ids_st movie_ids w)"

section \<open>The operations over an unspecified library\<close>

text \<open>
  The definitions above fix one model for each library function that the queries call:
  exact rounding for \<^verbatim>\<open>round\<close>, patterns of literals and dots over bytes with the
  ASCII letters folded for the regular expressions, strings of decimal digits for
  \<^verbatim>\<open>pd.to_numeric\<close>, and a stable sort for \<^verbatim>\<open>sort_values\<close>.  The library functions
  do more than these models say.  \<^verbatim>\<open>round(x, 2)\<close> rounds the binary double that holds
  \<open>x\<close>, so a decimal tie goes up or down with the representation of the number.  The
  regular expressions have their whole syntax and fold the case of every Unicode
  letter, and a malformed pattern raises \<^verbatim>\<open>re.error\<close>.  \<^verbatim>\<open>pd.to_numeric\<close> reads
  every spelling of a number.  The default sorting kind of \<^verbatim>\<open>sort_values\<close> does not
  fix the order of rows with equal keys.

  In this section the same operations take the four library functions as an argument,
  and the definitions assume nothing about them:
  \<^item> \<open>lib_round x\<close> is \<^verbatim>\<open>round(x, 2)\<close>;
  \<^item> \<open>lib_contains pat\<close> is the test that \<^verbatim>\<open>str.contains(pat, case=False, na=False)\<close>
    applies to each string of the column, or \<open>None\<close> when the pattern does not compile
    and \<^verbatim>\<open>re.error\<close> is raised;
  \<^item> \<open>lib_to_numeric s\<close> is the cell that \<^verbatim>\<open>pd.to_numeric(..., errors='coerce')\<close> gives
    for the string \<open>s\<close>, where \<open>None\<close> is NaN;
  \<^item> \<open>lib_sort_values column ascending df\<close> is
    \<^verbatim>\<open>df.sort_values(column, ascending=ascending)\<close>.
\<close>

record library =
  lib_round :: "real \<Rightarrow> real"
  lib_contains :: "string \<Rightarrow> (string \<Rightarrow> bool) option"
  lib_to_numeric :: "string \<Rightarrow> real option"
  lib_sort_values :: "string \<Rightarrow> bool \<Rightarrow> movie list \<Rightarrow> movie list"

subsection \<open>Recommendations\<close>

definition make_rec_with :: "library \<Rightarrow> movie \<Rightarrow> real \<Rightarrow> recommendation" where
  "make_rec_with lib m score =
     \<lparr> rec_id = movie_id m,
       rec_title = title m,
       rec_overview = rec_overview_of (overview m),
       rec_genres = genres_display m,
       rec_vote_average = vote_average m,
       rec_popularity = popularity m,
       rec_release_date = str_of_date (release_date m),
       similarity_score = lib_round lib (score * 100),
       hybrid_score = None \<rparr>"

fun build_recs_with ::
  "library \<Rightarrow> movie list \<Rightarrow> (nat \<times> real) list \<Rightarrow> recommendation list option" where
  "build_recs_with lib df [] = Some []"
| "build_recs_with lib df ((i, score) # ps) =
     (if i < length df
      then map_option ((#) (make_rec_with lib (df ! i) score)) (build_recs_with lib df ps)
      else None)"

definition get_recommendations_with ::
  "library \<Rightarrow> engine \<Rightarrow> int \<Rightarrow> int \<Rightarrow> recommendation list option" where
  "get_recommendations_with lib e mid top_n =
     (case series_getitem (indices e) mid of
        Missing \<Rightarrow> None
      | Many vs \<Rightarrow> None
      | Scalar idx \<Rightarrow>
          if idx < length (cosine_sim e)
          then build_recs_with lib (movies_df e) (sim_scores (cosine_sim e ! idx) top_n)
          else None)"

text \<open>The loop body of \<^verbatim>\<open>hybrid_recommendations\<close>: the boost, the blend, and
  \<^verbatim>\<open>rec['hybrid_score'] = round(hybrid * 100, 2)\<close>.\<close>

definition score_rec_with ::
  "library \<Rightarrow> engine \<Rightarrow> real \<Rightarrow> int list \<Rightarrow> int list \<Rightarrow> recommendation
     \<Rightarrow> py_error + recommendation" where
  "score_rec_with lib e alpha liked_ids disliked_ids r =
     (case collab_boost e liked_ids disliked_ids r of
        Inl err \<Rightarrow> Inl err
      | Inr b \<Rightarrow> Inr (r\<lparr>hybrid_score := Some (lib_round lib (hybrid_value alpha r b * 100))\<rparr>))"

fun score_all_with ::
  "library \<Rightarrow> engine \<Rightarrow> real \<Rightarrow> int list \<Rightarrow> int list \<Rightarrow> recommendation list
     \<Rightarrow> py_error + recommendation list" where
  "score_all_with lib e alpha liked_ids disliked_ids [] = Inr []"
| "score_all_with lib e alpha liked_ids disliked_ids (r # rs) =
     (case score_rec_with lib e alpha liked_ids disliked_ids r of
        Inl err \<Rightarrow> Inl err
      | Inr r' \<Rightarrow>
          (case score_all_with lib e alpha liked_ids disliked_ids rs of
             Inl err \<Rightarrow> Inl err
           | Inr rs' \<Rightarrow> Inr (r' # rs')))"

definition hybrid_recommendations_with ::
  "library \<Rightarrow> engine \<Rightarrow> int \<Rightarrow> (int \<times> real) list \<Rightarrow> int \<Rightarrow> real
     \<Rightarrow> py_error + recommendation list option" where
  "hybrid_recommendations_with lib e mid user_ratings top_n alpha =
     (case get_recommendations_with lib e mid (top_n * 3) of
        None \<Rightarrow> Inr None
      | Some [] \<Rightarrow> Inr None
      | Some content_recs \<Rightarrow>
          (case score_all_with lib e alpha (liked_ids_of user_ratings)
                  (disliked_ids_of user_ratings) content_recs of
             Inl err \<Rightarrow> Inl err
           | Inr scored \<Rightarrow> Inr (Some (py_slice (sorted_reverse hybrid_score scored) 0 top_n))))"

text \<open>The candidate with the final score of the specification, stored the way the
  code stores scores: as a percentage, rounded by the library.\<close>

definition spec_scored_with ::
  "library \<Rightarrow> engine \<Rightarrow> real \<Rightarrow> (int \<times> real) list \<Rightarrow> recommendation \<Rightarrow> recommendation" where
  "spec_scored_with lib e alpha prefs c =
     c\<lparr>hybrid_score :=
         Some (lib_round lib (spec_final_score alpha (similarity_score c / 100)
                                (spec_boost e prefs (rec_id c)) * 100))\<rparr>"

subsection \<open>Search and filter\<close>

text \<open>The exceptions of the two queries: \<^verbatim>\<open>re.error\<close> for a pattern that does not
  compile, and the \<^verbatim>\<open>AttributeError\<close> of the accessor \<^verbatim>\<open>.str\<close> on a column without
  strings.\<close>

datatype query_error = PatternError | AttributeError

definition search_movies_with ::
  "library \<Rightarrow> engine \<Rightarrow> string \<Rightarrow> int \<Rightarrow> int \<Rightarrow> query_error + (movie_out list \<times> nat)" where
  "search_movies_with lib e query limit offset =
     (case lib_contains lib query of
        None \<Rightarrow> Inl PatternError
      | Some keep \<Rightarrow>
          let all_results = filter (\<lambda>m. keep (title m)) (movies_df e);
              total = length all_results;
              results = py_slice all_results offset (offset + limit)
          in Inr (format_movies results, total))"

text \<open>The column \<^verbatim>\<open>release_date\<close> of the movies frame keeps the type it got when the
  file was read: a column in which some row has a date holds strings and NaN, and a
  column of a corpus that has rows but no date at all holds floats.  On the latter
  \<^verbatim>\<open>filtered['release_date'].str\<close> raises \<^verbatim>\<open>AttributeError\<close>, whatever rows the
  earlier filters kept.\<close>

definition no_date_strings :: "engine \<Rightarrow> bool" where
  "no_date_strings e \<longleftrightarrow>
     movies_df e \<noteq> [] \<and> list_all (\<lambda>m. release_date m = None) (movies_df e)"

text \<open>The cell of the column \<^verbatim>\<open>_year\<close>:
  \<^verbatim>\<open>pd.to_numeric(release_date.str[:4], errors='coerce')\<close>.\<close>

definition year_with :: "library \<Rightarrow> movie \<Rightarrow> real option" where
  "year_with lib m =
     (case release_date m of
        None \<Rightarrow> None
      | Some s \<Rightarrow> lib_to_numeric lib (take 4 s))"

text \<open>\<^verbatim>\<open>if bound: filtered = filtered[filtered['_year'] >= int(bound)]\<close> and its mirror
  image, on the numbers of the column \<^verbatim>\<open>_year\<close>.\<close>

definition year_from_filter :: "int option \<Rightarrow> (movie \<Rightarrow> real option) \<Rightarrow> movie list \<Rightarrow> movie list" where
  "year_from_filter bound col df =
     (case bound of
        None \<Rightarrow> df
      | Some b \<Rightarrow>
          if b = 0 then df
          else filter (\<lambda>m. case col m of None \<Rightarrow> False | Some v \<Rightarrow> of_int b \<le> v) df)"

definition year_to_filter :: "int option \<Rightarrow> (movie \<Rightarrow> real option) \<Rightarrow> movie list \<Rightarrow> movie list" where
  "year_to_filter bound col df =
     (case bound of
        None \<Rightarrow> df
      | Some b \<Rightarrow>
          if b = 0 then df
          else filter (\<lambda>m. case col m of None \<Rightarrow> False | Some v \<Rightarrow> v \<le> of_int b) df)"

text \<open>The dictionary of sort columns with its default.\<close>

definition sort_col :: "string \<Rightarrow> string" where
  "sort_col key =
     (if key = ''popularity'' then ''popularity''
      else if key = ''rating'' then ''vote_average''
      else if key = ''release_date'' then ''release_date''
      else if key = ''revenue'' then ''revenue''
      else if key = ''title'' then ''title''
      else ''popularity'')"

text \<open>The frame after all the filters of \<^verbatim>\<open>filter_movies\<close>, before sorting, or the
  exception that ends the query.\<close>

definition filtered_frame_with :: "library \<Rightarrow> engine \<Rightarrow> filter_args \<Rightarrow> query_error + movie list" where
  "filtered_frame_with lib e a =
     (let rated = filter (\<lambda>m. min_rating a \<le> vote_average m \<and> vote_average m \<le> max_rating a)
                    (movies_df e);
          by_genre =
            (case genre a of
               None \<Rightarrow> Inr rated
             | Some pat \<Rightarrow>
                 if pat = [] then Inr rated
                 else (case lib_contains lib pat of
                         None \<Rightarrow> Inl PatternError
                       | Some keep \<Rightarrow> Inr (filter (\<lambda>m. keep (genres m)) rated)))
      in (case by_genre of
            Inl err \<Rightarrow> Inl err
          | Inr selected \<Rightarrow>
              if truthy (year_from a) \<or> truthy (year_to a)
              then
                if no_date_strings e then Inl AttributeError
                else Inr (keep_upto (max_runtime a) runtime
                           (keep_from (min_runtime a) runtime
                             (year_to_filter (year_to a) (year_with lib)
                               (year_from_filter (year_from a) (year_with lib) selected))))
              else Inr (keep_upto (max_runtime a) runtime
                         (keep_from (min_runtime a) runtime selected))))"

definition filter_movies_with ::
  "library \<Rightarrow> engine \<Rightarrow> filter_args \<Rightarrow> int \<Rightarrow> int \<Rightarrow> query_error + (movie_out list \<times> nat)" where
  "filter_movies_with lib e a limit offset =
     (case filtered_frame_with lib e a of
        Inl err \<Rightarrow> Inl err
      | Inr filtered \<Rightarrow>
          let total = length filtered;
              sorted_df = lib_sort_values lib (sort_col (sort_by a)) (sort_order a = ''asc'')
                            filtered;
              page = py_slice sorted_df offset (offset + limit)
          in Inr (format_movies page, total))"



subsection \<open>The library of the first sections\<close>

text \<open>The models of the library functions that the definitions of the first sections
  use, as one library: a pattern with a special character other than the dot does
  not compile, a string cell is read as a number when it consists of decimal digits,
  and rows are sorted by the named column with a stable sort.\<close>

definition simple_to_numeric :: "string \<Rightarrow> real option" where
  "simple_to_numeric s =
     (if s \<noteq> [] \<and> list_all is_digit s then Some (of_int (digits_value s)) else None)"

definition simple_sort_values :: "string \<Rightarrow> bool \<Rightarrow> movie list \<Rightarrow> movie list" where
  "simple_sort_values column ascending df =
     (if column = ''vote_average'' then sort_values (\<lambda>m. Some (vote_average m)) ascending df
      else if column = ''release_date'' then sort_values release_date ascending df
      else if column = ''revenue'' then sort_values (\<lambda>m. Some (revenue m)) ascending df
      else if column = ''title'' then sort_values (\<lambda>m. Some (title m)) ascending df
      else sort_values (\<lambda>m. Some (popularity m)) ascending df)"

definition simple_library :: library where
  "simple_library =
     \<lparr> lib_round = round2,
       lib_contains = (\<lambda>pat. map_option re_search (compile_pattern pat)),
       lib_to_numeric = simple_to_numeric,
       lib_sort_values = simple_sort_values \<rparr>"

section \<open>Example engines\<close>

definition demo_movie :: "int \<Rightarrow> string \<Rightarrow> real \<Rightarrow> real \<Rightarrow> movie" where
  "demo_movie i t pop avg =
     \<lparr> movie_id = i, title = t, overview = [], genres = [], genres_display = [],
       vote_average = avg, vote_count = 1000, popularity = pop,
       release_date = Some ''1999-10-12'', runtime = Some 100, revenue = 0 \<rparr>"

text \<open>Three movies with distinct similarities.\<close>

definition demo_engine :: engine where
  "demo_engine =
     \<lparr> movies_df = [demo_movie 10 ''Alpha'' 3 6, demo_movie 20 ''Beta'' 2 7,
                    demo_movie 30 ''Up'' 1 8],
       credits_df = [],
       cosine_sim = [[1, 1 / 2, 1 / 4], [1 / 2, 1, 0], [1 / 4, 0, 1]],
       indices = [(10, 0), (20, 1), (30, 2)],
       tfidf_matrix = [] \<rparr>"

text \<open>Two movies with the same feature text: every similarity is 1.\<close>

definition twin_engine :: engine where
  "twin_engine =
     \<lparr> movies_df = [demo_movie 10 ''Alpha'' 2 6, demo_movie 20 ''Alpha Again'' 1 6],
       credits_df = [],
       cosine_sim = [[1, 1], [1, 1]],
       indices = [(10, 0), (20, 1)],
       tfidf_matrix = [] \<rparr>"

text \<open>A corpus of one movie.\<close>

definition single_engine :: engine where
  "single_engine =
     \<lparr> movies_df = [demo_movie 10 ''Alpha'' 1 6],
       credits_df = [],
       cosine_sim = [[1]],
       indices = [(10, 0)],
       tfidf_matrix = [] \<rparr>"

text \<open>Three rows of which two carry the same id.\<close>

definition repeated_engine :: engine where
  "repeated_engine =
     \<lparr> movies_df = [demo_movie 10 ''Alpha'' 3 6, demo_movie 20 ''Beta'' 2 7,
                    demo_movie 20 ''Beta'' 1 8],
       credits_df = [],
       cosine_sim = [[1, 1 / 2, 1 / 4], [1 / 2, 1, 0], [1 / 4, 0, 1]],
       indices = [(10, 0), (20, 1), (20, 2)],
       tfidf_matrix = [] \<rparr>"

text \<open>The default arguments of \<^verbatim>\<open>filter_movies\<close>.\<close>

definition default_args :: filter_args where
  "default_args =
     \<lparr> genre = None, min_rating = 0, max_rating = 10, year_from = None, year_to = None,
       min_runtime = None, max_runtime = None, sort_by = ''popularity'', sort_order = ''desc'' \<rparr>"

text \<open>The store of the example engine of three movies.\<close>

definition demo_world :: world where
  "demo_world =
     \<lparr> movies_ref = 0, credits_ref = 1, sim_ref = 2, indices_ref = 3, tfidf_ref = 4,
       heap = [Frame (map (\<lambda>m. (m, None)) (movies_df demo_engine)),
               Credits (credits_df demo_engine),
               Matrix (cosine_sim demo_engine),
               Series (indices demo_engine),
               Matrix (tfidf_matrix demo_engine)] \<rparr>"

section \<open>Properties\<close>

subsection \<open>Unknown ids\<close>

lemma series_getitem_Missing:
  "k \<notin> fst ` set s \<Longrightarrow> series_getitem s k = Missing"
proof -
  assume "k \<notin> fst ` set s"
  then have "filter (\<lambda>p. fst p = k) s = []"
    by (auto simp: filter_empty_conv)
  then show ?thesis by (simp add: series_getitem_def)
qed

text \<open>
  Claim C3.  For an item id that is not a label of the index mapping, and any number
  \<open>top_n\<close>, \<open>get_recommendations\<close> answers \<open>None\<close> (not found), which is a
  different value from the empty list \<open>Some []\<close> that stands for a found item
  without neighbours.
\<close>

theorem unknown_id_not_found:
  "mid \<notin> fst ` set (indices e) \<Longrightarrow>
     get_recommendations e mid top_n = None \<and> get_recommendations e mid top_n \<noteq> Some []"
  by (simp add: get_recommendations_def series_getitem_Missing)

subsection \<open>Slices and sorting\<close>

lemma py_slice_nonneg:
  "0 \<le> a \<Longrightarrow> 0 \<le> b \<Longrightarrow> py_slice xs a b = take (nat b - nat a) (drop (nat a) xs)"
  by (auto simp: py_slice_def Let_def min_def nat_diff_distrib' intro!: take_all_iff[THEN iffD2] )

lemma length_sorted_reverse: "length (sorted_reverse f xs) = length xs"
  by (simp add: sorted_reverse_def)

lemma set_sorted_reverse: "set (sorted_reverse f xs) = set xs"
  by (simp add: sorted_reverse_def)

lemma sorted_reverse_desc: "sorted_wrt (\<lambda>a b. f b \<le> f a) (sorted_reverse f xs)"
proof -
  have "sorted (map f (sort_key f (rev xs)))" by simp
  then have "sorted_wrt (\<lambda>a b. f a \<le> f b) (sort_key f (rev xs))"
    by (simp add: sorted_map)
  then show ?thesis
    by (simp add: sorted_reverse_def sorted_wrt_rev)
qed

lemma sorted_reverse_stable:
  "filter (\<lambda>y. f y = k) (sorted_reverse f xs) = filter (\<lambda>y. f y = k) xs"
  by (simp add: sorted_reverse_def sort_key_stable flip: rev_filter)


subsection \<open>The sorted similarity row\<close>

lemma sim_scores_eq:
  "0 \<le> top_n \<Longrightarrow>
     sim_scores row top_n = take (nat top_n) (drop 1 (sorted_reverse snd (enumerate_row row)))"
  by (simp add: sim_scores_def py_slice_nonneg nat_add_distrib)

lemma length_enumerate_row: "length (enumerate_row xs) = length xs"
  by (simp add: enumerate_row_def)

lemma length_sim_scores:
  "0 \<le> top_n \<Longrightarrow> length (sim_scores row top_n) = min (nat top_n) (length row - 1)"
  by (simp add: sim_scores_eq length_sorted_reverse length_enumerate_row)

lemma set_sim_scores:
  "0 \<le> top_n \<Longrightarrow> set (sim_scores row top_n) \<subseteq> set (enumerate_row row)"
proof -
  assume k: "0 \<le> top_n"
  have "set (sim_scores row top_n) \<subseteq> set (sorted_reverse snd (enumerate_row row))"
    unfolding sim_scores_eq [OF k]
    by (meson set_take_subset set_drop_subset subset_trans)
  then show ?thesis by (simp add: set_sorted_reverse)
qed

lemma sim_scores_desc:
  "0 \<le> top_n \<Longrightarrow> sorted_wrt (\<lambda>a b. snd b \<le> snd a) (sim_scores row top_n)"
  by (simp add: sim_scores_eq sorted_wrt_take sorted_wrt_drop sorted_reverse_desc)

lemma filter_take_drop_sorted:
  assumes "sorted_wrt R (filter P xs)"
  shows "sorted_wrt R (filter P (take n (drop m xs)))"
proof -
  have "drop m xs = take n (drop m xs) @ drop n (drop m xs)"
    by (rule append_take_drop_id [symmetric])
  then have "xs = take m xs @ (take n (drop m xs) @ drop n (drop m xs))"
    by (metis append_take_drop_id)
  then have "filter P xs = filter P (take m xs) @ filter P (take n (drop m xs))
      @ filter P (drop n (drop m xs))"
    by (metis filter_append)
  with assms show ?thesis by (simp add: sorted_wrt_append)
qed

lemma enumerate_row_ties:
  "sorted_wrt (<) (map fst (filter P (enumerate_row row)))"
proof -
  have "sorted_wrt (<) (map fst (enumerate_row row))"
    by (simp add: enumerate_row_def)
  then have "sorted_wrt (\<lambda>a b. fst a < fst b) (enumerate_row row)"
    by (simp add: sorted_wrt_map)
  then have "sorted_wrt (\<lambda>a b. fst a < fst b) (filter P (enumerate_row row))"
    by (rule sorted_wrt_filter)
  then show ?thesis by (simp add: sorted_wrt_map)
qed

lemma sim_scores_ties:
  assumes "0 \<le> top_n"
  shows "sorted_wrt (\<lambda>a b. fst a < fst b) (filter (\<lambda>p. snd p = v) (sim_scores row top_n))"
proof -
  have "sorted_wrt (\<lambda>a b. fst a < fst b)
          (filter (\<lambda>p. snd p = v) (sorted_reverse snd (enumerate_row row)))"
    using enumerate_row_ties [of "\<lambda>p. snd p = v" row]
    by (simp add: sorted_reverse_stable sorted_wrt_map)
  then show ?thesis
    unfolding sim_scores_eq [OF assms] by (rule filter_take_drop_sorted)
qed

subsection \<open>Lookups in a well-formed engine\<close>

lemma filter_key_unique:
  "distinct (map fst s) \<Longrightarrow> (k, v) \<in> set s \<Longrightarrow> filter (\<lambda>p. fst p = k) s = [(k, v)]"
proof (induction s)
  case Nil
  then show ?case by simp
next
  case (Cons p s)
  show ?case
  proof (cases "p = (k, v)")
    case True
    with Cons.prems have "k \<notin> fst ` set s" by auto
    then have "filter (\<lambda>p. fst p = k) s = []"
      by (auto simp: filter_empty_conv)
    with True show ?thesis by simp
  next
    case False
    with Cons.prems have in_s: "(k, v) \<in> set s" by auto
    with Cons.prems have "fst p \<noteq> k" by (auto simp: image_iff)
    with Cons.IH Cons.prems in_s show ?thesis by simp
  qed
qed

lemma wf_indices_length: "wf_engine e \<Longrightarrow> map fst (indices e) = map movie_id (movies_df e)"
  by (simp add: wf_engine_def)

lemma wf_lookup:
  assumes wf: "wf_engine e" and i: "i < length (movies_df e)"
  shows "series_getitem (indices e) (movie_id (movies_df e ! i)) = Scalar i"
proof -
  let ?k = "movie_id (movies_df e ! i)"
  have ind: "indices e = zip (map movie_id (movies_df e)) [0..<length (movies_df e)]"
    using wf by (simp add: wf_engine_def)
  have "distinct (map fst (indices e))"
    using wf by (simp add: wf_engine_def)
  moreover have "(?k, i) \<in> set (indices e)"
    unfolding ind using i by (auto simp: in_set_zip intro!: exI [of _ i])
  ultimately have "filter (\<lambda>p. fst p = ?k) (indices e) = [(?k, i)]"
    by (rule filter_key_unique)
  then show ?thesis by (simp add: series_getitem_def)
qed

lemma wf_in_index:
  assumes wf: "wf_engine e"
  shows "in_index (indices e) k \<longleftrightarrow> (\<exists>i < length (movies_df e). movie_id (movies_df e ! i) = k)"
proof -
  have "fst ` set (indices e) = set (map movie_id (movies_df e))"
    using wf by (metis wf_indices_length set_map)
  then have "in_index (indices e) k \<longleftrightarrow> k \<in> set (map movie_id (movies_df e))"
    by (simp add: in_index_def)
  also have "\<dots> \<longleftrightarrow> (\<exists>i < length (map movie_id (movies_df e)). map movie_id (movies_df e) ! i = k)"
    by (rule in_set_conv_nth)
  also have "\<dots> \<longleftrightarrow> (\<exists>i < length (movies_df e). movie_id (movies_df e ! i) = k)"
    by auto
  finally show ?thesis .
qed

lemma wf_lookup_present:
  assumes wf: "wf_engine e" and k: "in_index (indices e) k"
  obtains i where "i < length (movies_df e)" "movie_id (movies_df e ! i) = k"
    "series_getitem (indices e) k = Scalar i"
proof -
  from k obtain i where i: "i < length (movies_df e)" "movie_id (movies_df e ! i) = k"
    using wf_in_index [OF wf] by blast
  from wf_lookup [OF wf i(1)] i(2) have "series_getitem (indices e) k = Scalar i" by simp
  with i that show thesis by blast
qed

lemma build_recs_in_range:
  "\<forall>p \<in> set ps. fst p < length df \<Longrightarrow>
     build_recs df ps = Some (map (\<lambda>p. make_rec (df ! fst p) (snd p)) ps)"
  by (induction ps) auto

lemma enumerate_row_fst: "p \<in> set (enumerate_row row) \<Longrightarrow> fst p < length row"
  by (auto simp: enumerate_row_def set_zip)

lemma wf_row_length:
  "wf_engine e \<Longrightarrow> i < length (movies_df e) \<Longrightarrow> length (cosine_sim e ! i) = length (movies_df e)"
  by (simp add: wf_engine_def list_all_length)

lemma wf_get_recommendations:
  assumes wf: "wf_engine e" and i: "i < length (movies_df e)" and k: "0 \<le> top_n"
  shows "get_recommendations e (movie_id (movies_df e ! i)) top_n =
           Some (map (\<lambda>p. make_rec (movies_df e ! fst p) (snd p))
                  (sim_scores (cosine_sim e ! i) top_n))"
proof -
  have len: "length (cosine_sim e) = length (movies_df e)"
    using wf by (simp add: wf_engine_def)
  have "\<forall>p \<in> set (sim_scores (cosine_sim e ! i) top_n). fst p < length (movies_df e)"
  proof
    fix p assume "p \<in> set (sim_scores (cosine_sim e ! i) top_n)"
    then have "p \<in> set (enumerate_row (cosine_sim e ! i))"
      using set_sim_scores [OF k, of "cosine_sim e ! i"] by blast
    then have "fst p < length (cosine_sim e ! i)" by (rule enumerate_row_fst)
    then show "fst p < length (movies_df e)" by (simp add: wf_row_length [OF wf i])
  qed
  then show ?thesis
    using i len by (simp add: get_recommendations_def wf_lookup [OF wf i] build_recs_in_range)
qed

lemma wf_demo_engine: "wf_engine demo_engine"
  by (simp add: wf_engine_def demo_engine_def demo_movie_def upt_rec)

lemma wf_twin_engine: "wf_engine twin_engine"
  by (simp add: wf_engine_def twin_engine_def demo_movie_def upt_rec)

lemma wf_single_engine: "wf_engine single_engine"
  by (simp add: wf_engine_def single_engine_def demo_movie_def upt_rec)

theorem unknown_id_not_found_witness:
  "99 \<notin> fst ` set (indices demo_engine) \<and> get_recommendations demo_engine 99 5 = None
     \<and> get_recommendations demo_engine 99 5 \<noteq> Some []
     \<and> get_recommendations single_engine 10 5 = Some []"
proof -
  have h: "99 \<notin> fst ` set (indices demo_engine)"
    by (simp add: demo_engine_def)
  have "get_recommendations single_engine 10 5 = Some []"
    by (simp add: get_recommendations_def single_engine_def series_getitem_def sim_scores_def
        py_slice_def sorted_reverse_def enumerate_row_def upt_rec)
  with h unknown_id_not_found [OF h, of 5] show ?thesis by simp
qed

subsection \<open>Rounding\<close>

lemma round_half_even_bounds: "\<lfloor>x\<rfloor> \<le> round_half_even x \<and> round_half_even x \<le> \<lfloor>x\<rfloor> + 1"
  by (simp add: round_half_even_def Let_def)

lemma round_half_even_of_int: "round_half_even (of_int n) = n"
  by (simp add: round_half_even_def)

lemma round_half_even_mono:
  assumes "x \<le> y"
  shows "round_half_even x \<le> round_half_even y"
proof (cases "\<lfloor>x\<rfloor> = \<lfloor>y\<rfloor>")
  case True
  with assms have "x - of_int \<lfloor>x\<rfloor> \<le> y - of_int \<lfloor>y\<rfloor>" by simp
  with True show ?thesis
    by (auto simp: round_half_even_def Let_def)
next
  case False
  with assms have "\<lfloor>x\<rfloor> < \<lfloor>y\<rfloor>"
    using floor_mono [of x y] by linarith
  then have "\<lfloor>x\<rfloor> + 1 \<le> \<lfloor>y\<rfloor>" by simp
  with round_half_even_bounds [of x] round_half_even_bounds [of y] show ?thesis
    by linarith
qed

lemma round2_mono: "x \<le> y \<Longrightarrow> round2 x \<le> round2 y"
  by (simp add: round2_def round_half_even_mono divide_right_mono)

lemma round2_idem: "round2 (round2 x) = round2 x"
  by (simp add: round2_def round_half_even_of_int)

subsection \<open>The collaborative boost\<close>

lemma sim_at_wf:
  assumes wf: "wf_engine e" and c: "series_getitem (indices e) c = Scalar i"
    and i: "i < length (movies_df e)" and p: "in_index (indices e) p"
  shows "sim_at e (Scalar i) p = Inr (sim_of_ids e c p)"
proof -
  from wf p obtain j where j: "j < length (movies_df e)" "series_getitem (indices e) p = Scalar j"
    by (rule wf_lookup_present)
  have "length (cosine_sim e) = length (movies_df e)"
    using wf by (simp add: wf_engine_def)
  with i j c wf_row_length [OF wf i] show ?thesis
    by (simp add: sim_at_def sim_of_ids_def)
qed

lemma liked_loop_wf:
  assumes wf: "wf_engine e" and c: "series_getitem (indices e) c = Scalar i"
    and i: "i < length (movies_df e)"
  shows "liked_loop e (Scalar i) lids b =
           Inr (b + (\<Sum>p \<leftarrow> filter (in_index (indices e)) lids. sim_of_ids e c p))"
  by (induction lids arbitrary: b) (simp_all add: sim_at_wf [OF wf c i])

lemma disliked_loop_wf:
  assumes wf: "wf_engine e" and c: "series_getitem (indices e) c = Scalar i"
    and i: "i < length (movies_df e)"
  shows "disliked_loop e (Scalar i) dids b =
           Inr (b - (\<Sum>p \<leftarrow> filter (in_index (indices e)) dids. sim_of_ids e c p) / 2)"
  by (induction dids arbitrary: b) (simp_all add: sim_at_wf [OF wf c i] diff_divide_distrib add_divide_distrib)

lemma spec_liked_eq: "spec_liked e prefs = filter (in_index (indices e)) (liked_ids_of prefs)"
  by (induction prefs) (auto simp: spec_liked_def liked_ids_of_def)

lemma spec_disliked_eq: "spec_disliked e prefs = filter (in_index (indices e)) (disliked_ids_of prefs)"
  by (induction prefs) (auto simp: spec_disliked_def disliked_ids_of_def)

lemma collab_boost_wf:
  assumes wf: "wf_engine e" and i: "i < length (movies_df e)"
    and r: "rec_id r = movie_id (movies_df e ! i)"
  shows "collab_boost e (liked_ids_of prefs) (disliked_ids_of prefs) r
           = Inr (spec_boost e prefs (rec_id r))"
proof -
  have c: "series_getitem (indices e) (rec_id r) = Scalar i"
    using wf_lookup [OF wf i] r by simp
  have "in_index (indices e) (rec_id r)"
    using wf_in_index [OF wf] i r by auto
  then show ?thesis
    by (simp add: collab_boost_def c liked_loop_wf [OF wf c i] disliked_loop_wf [OF wf c i]
        spec_boost_def spec_liked_eq spec_disliked_eq)
qed

lemma hybrid_value_spec:
  "hybrid_value alpha r b = spec_final_score alpha (similarity_score r / 100) b"
  by (simp add: hybrid_value_def spec_final_score_def)

lemma build_recs_Some:
  "build_recs df ps = Some rs \<Longrightarrow>
     (\<forall>p \<in> set ps. fst p < length df) \<and> rs = map (\<lambda>p. make_rec (df ! fst p) (snd p)) ps"
  by (induction ps arbitrary: rs) (fastforce split: if_splits)+

lemma get_recommendations_Some:
  assumes "get_recommendations e mid n = Some pool"
  obtains idx where "series_getitem (indices e) mid = Scalar idx" "idx < length (cosine_sim e)"
    "\<forall>p \<in> set (sim_scores (cosine_sim e ! idx) n). fst p < length (movies_df e)"
    "pool = map (\<lambda>p. make_rec (movies_df e ! fst p) (snd p)) (sim_scores (cosine_sim e ! idx) n)"
proof -
  from assms obtain idx where idx: "series_getitem (indices e) mid = Scalar idx"
      "idx < length (cosine_sim e)"
      "build_recs (movies_df e) (sim_scores (cosine_sim e ! idx) n) = Some pool"
    by (auto simp: get_recommendations_def split: lookup.splits if_splits)
  with build_recs_Some [OF idx(3)] that show thesis by blast
qed

lemma pool_member:
  assumes "get_recommendations e mid n = Some pool" and "c \<in> set pool"
  shows "\<exists>i < length (movies_df e). rec_id c = movie_id (movies_df e ! i)"
proof -
  from assms(1) obtain idx where
    rng: "\<forall>p \<in> set (sim_scores (cosine_sim e ! idx) n). fst p < length (movies_df e)" and
    pool: "pool = map (\<lambda>p. make_rec (movies_df e ! fst p) (snd p)) (sim_scores (cosine_sim e ! idx) n)"
    by (rule get_recommendations_Some)
  from assms(2) pool obtain p where "p \<in> set (sim_scores (cosine_sim e ! idx) n)"
      "c = make_rec (movies_df e ! fst p) (snd p)"
    by auto
  with rng show ?thesis by (auto simp: make_rec_def)
qed

lemma score_rec_wf:
  assumes wf: "wf_engine e" and i: "i < length (movies_df e)"
    and r: "rec_id r = movie_id (movies_df e ! i)"
  shows "score_rec e alpha (liked_ids_of prefs) (disliked_ids_of prefs) r
           = Inr (spec_scored e alpha prefs r)"
  by (simp add: score_rec_def collab_boost_wf [OF wf i r] spec_scored_def hybrid_value_spec)

lemma score_all_wf:
  assumes wf: "wf_engine e"
    and rs: "\<forall>r \<in> set rs. \<exists>i < length (movies_df e). rec_id r = movie_id (movies_df e ! i)"
  shows "score_all e alpha (liked_ids_of prefs) (disliked_ids_of prefs) rs
           = Inr (map (spec_scored e alpha prefs) rs)"
  using rs
proof (induction rs)
  case Nil
  then show ?case by simp
next
  case (Cons r rs)
  from Cons.prems obtain i where "i < length (movies_df e)" "rec_id r = movie_id (movies_df e ! i)"
    by auto
  then have "score_rec e alpha (liked_ids_of prefs) (disliked_ids_of prefs) r
           = Inr (spec_scored e alpha prefs r)"
    by (rule score_rec_wf [OF wf])
  with Cons show ?case by simp
qed

lemma hybrid_recommendations_wf:
  assumes wf: "wf_engine e" and pool: "get_recommendations e mid (k * 3) = Some pool"
    and ne: "pool \<noteq> []"
  shows "hybrid_recommendations e mid prefs k alpha =
           Inr (Some (py_slice (sorted_reverse hybrid_score (map (spec_scored e alpha prefs) pool)) 0 k))"
proof -
  have "score_all e alpha (liked_ids_of prefs) (disliked_ids_of prefs) pool
           = Inr (map (spec_scored e alpha prefs) pool)"
    using pool_member [OF pool] by (intro score_all_wf [OF wf]) blast
  with pool ne show ?thesis
    by (cases pool) (simp_all add: hybrid_recommendations_def)
qed

lemma score_all_shape:
  "score_all e alpha L D rs = Inr scored \<Longrightarrow>
     list_all2 (\<lambda>r r'. \<exists>h. r' = r\<lparr>hybrid_score := h\<rparr>) rs scored"
proof (induction rs arbitrary: scored)
  case Nil
  then show ?case by simp
next
  case (Cons r rs)
  then show ?case
    by (auto simp: score_rec_def split: sum.splits)
qed

lemma length_py_slice_prefix: "0 \<le> k \<Longrightarrow> length (py_slice xs 0 k) \<le> nat k"
  by (simp add: py_slice_nonneg)

lemma set_py_slice: "set (py_slice xs a b) \<subseteq> set xs"
  unfolding py_slice_def Let_def
  by (meson set_take_subset set_drop_subset subset_trans)

lemmas demo_eval =
  get_recommendations_def demo_engine_def series_getitem_def sim_scores_def py_slice_def
  sorted_reverse_def enumerate_row_def upt_rec make_rec_def demo_movie_def round2_def
  round_half_even_def rec_overview_of_def str_of_date_def


lemma demo_hybrid:
  "hybrid_recommendations demo_engine 10 [(20, 5), (30, 1), (99, 4)] 1 (7 / 10) =
     Inr (Some [(make_rec (demo_movie 20 ''Beta'' 2 7) (1 / 2))\<lparr>hybrid_score := Some 65\<rparr>])"
  by (simp add: hybrid_recommendations_def demo_eval liked_ids_of_def disliked_ids_of_def
      score_rec_def collab_boost_def in_index_def sim_at_def hybrid_value_def)

text \<open>
  Claim C10.  Whenever \<open>hybrid_recommendations\<close> returns a list, for \<open>k \<ge> 1\<close> and any
  preferences and \<open>alpha\<close>, the list has at most \<open>k\<close> entries and each entry is an
  entry of the content pool \<open>get_recommendations e mid (3k)\<close> with a hybrid score
  added: an item outside the pool never appears.
\<close>

theorem hybrid_within_pool:
  assumes "1 \<le> k" and "hybrid_recommendations e mid prefs k alpha = Inr (Some out)"
  shows "\<exists>pool. get_recommendations e mid (k * 3) = Some pool
           \<and> length out \<le> nat k
           \<and> (\<forall>r \<in> set out. \<exists>c \<in> set pool. \<exists>h. r = c\<lparr>hybrid_score := h\<rparr>)"
proof -
  from assms(2) obtain pool scored where
    pool: "get_recommendations e mid (k * 3) = Some pool" and
    scored: "score_all e alpha (liked_ids_of prefs) (disliked_ids_of prefs) pool = Inr scored" and
    out: "out = py_slice (sorted_reverse hybrid_score scored) 0 k"
    by (auto simp: hybrid_recommendations_def split: option.splits list.splits sum.splits)
  have len: "length out \<le> nat k"
    using assms(1) unfolding out by (intro length_py_slice_prefix) simp
  have sub: "set out \<subseteq> set scored"
    unfolding out using set_py_slice [of "sorted_reverse hybrid_score scored" 0 k]
    by (simp add: set_sorted_reverse)
  have "\<forall>r \<in> set out. \<exists>c \<in> set pool. \<exists>h. r = c\<lparr>hybrid_score := h\<rparr>"
  proof
    fix r assume "r \<in> set out"
    with sub have "r \<in> set scored" by blast
    then obtain n where n: "n < length scored" "scored ! n = r"
      by (auto simp: in_set_conv_nth)
    from score_all_shape [OF scored] n
    have "n < length pool" "\<exists>h. r = (pool ! n)\<lparr>hybrid_score := h\<rparr>"
      by (auto simp: list_all2_conv_all_nth)
    then show "\<exists>c \<in> set pool. \<exists>h. r = c\<lparr>hybrid_score := h\<rparr>"
      using nth_mem by blast
  qed
  with pool len show ?thesis by blast
qed

theorem hybrid_within_pool_witness:
  "(1::int) \<le> 1
   \<and> hybrid_recommendations demo_engine 10 [(20, 5), (30, 1), (99, 4)] 1 (7 / 10) =
       Inr (Some [(make_rec (demo_movie 20 ''Beta'' 2 7) (1 / 2))\<lparr>hybrid_score := Some 65\<rparr>])
   \<and> (\<exists>pool. get_recommendations demo_engine 10 (1 * 3) = Some pool
         \<and> length [(make_rec (demo_movie 20 ''Beta'' 2 7) (1 / 2))\<lparr>hybrid_score := Some 65\<rparr>] \<le> nat 1
         \<and> (\<forall>r \<in> set [(make_rec (demo_movie 20 ''Beta'' 2 7) (1 / 2))\<lparr>hybrid_score := Some 65\<rparr>].
               \<exists>c \<in> set pool. \<exists>h. r = c\<lparr>hybrid_score := h\<rparr>))"
proof -
  have k: "(1::int) \<le> 1" by simp
  show ?thesis
    using hybrid_within_pool [OF k demo_hybrid] demo_hybrid by simp
qed

subsection \<open>Hybrid ranking with full content weight\<close>

lemma sorted_reverse_id:
  assumes "sorted_wrt (\<lambda>a b. f b \<le> f a) xs"
  shows "sorted_reverse f xs = xs"
proof -
  have "sorted_wrt (\<lambda>a b. f a \<le> f b) (rev xs)"
    using assms by (simp add: sorted_wrt_rev)
  then have "sorted (map f (rev xs))" by (simp add: sorted_map)
  then have "sort_key f (rev xs) = rev xs" by (rule sort_key_id_if_sorted)
  then show ?thesis by (simp add: sorted_reverse_def)
qed

lemma sim_scores_take:
  assumes "1 \<le> k"
  shows "take (nat k) (sim_scores row (k * 3)) = sim_scores row k"
proof -
  have "0 \<le> k" "0 \<le> k * 3" "nat k \<le> nat (k * 3)" using assms by auto
  then show ?thesis by (simp add: sim_scores_eq min_def)
qed

lemma sim_scores_empty_iff:
  assumes "1 \<le> k"
  shows "sim_scores row (k * 3) = [] \<longleftrightarrow> sim_scores row k = []"
proof -
  have k: "0 \<le> k" "0 \<le> k * 3" "0 < nat k" "0 < nat (k * 3)" using assms by auto
  have "nat k \<le> nat (k * 3)" using assms by simp
  with k have "length (sim_scores row (k * 3)) = 0 \<longleftrightarrow> length (sim_scores row k) = 0"
    unfolding length_sim_scores [OF k(1)] length_sim_scores [OF k(2)] by (cases "length row") auto
  then show ?thesis by simp
qed

lemma spec_scored_alpha_one:
  "spec_scored e 1 prefs (make_rec m s) = (make_rec m s)\<lparr>hybrid_score := Some (round2 (s * 100))\<rparr>"
  by (simp add: spec_scored_def spec_final_score_def make_rec_def round2_idem)

lemma similarity_score_make_rec: "similarity_score (make_rec m s) = round2 (s * 100)"
  by (simp add: make_rec_def)

lemma scored_alpha_one_desc:
  assumes "sorted_wrt (\<lambda>a b. snd b \<le> snd a) ps"
  shows "sorted_wrt (\<lambda>a b. hybrid_score b \<le> hybrid_score a)
           (map (\<lambda>p. (make_rec (df ! fst p) (snd p))\<lparr>hybrid_score := Some (round2 (snd p * 100))\<rparr>) ps)"
proof -
  have "sorted_wrt (\<lambda>a b. round2 (snd b * 100) \<le> round2 (snd a * 100)) ps"
    using assms by (rule sorted_wrt_mono_rel [rotated]) (simp add: round2_mono)
  then show ?thesis by (simp add: sorted_wrt_map)
qed

lemma hybrid_alpha_one_wf:
  assumes wf: "wf_engine e" and i: "i < length (movies_df e)" and k: "1 \<le> k"
  shows "hybrid_recommendations e (movie_id (movies_df e ! i)) prefs k 1 =
           (if sim_scores (cosine_sim e ! i) k = [] then Inr None
            else Inr (Some (map (\<lambda>p. (make_rec (movies_df e ! fst p) (snd p))
                                       \<lparr>hybrid_score := Some (round2 (snd p * 100))\<rparr>)
                              (sim_scores (cosine_sim e ! i) k))))"
proof -
  let ?mid = "movie_id (movies_df e ! i)"
  let ?mk = "\<lambda>p. make_rec (movies_df e ! fst p) (snd p)"
  let ?sc = "\<lambda>p. (make_rec (movies_df e ! fst p) (snd p))\<lparr>hybrid_score := Some (round2 (snd p * 100))\<rparr>"
  let ?pool = "sim_scores (cosine_sim e ! i) (k * 3)"
  have k3: "0 \<le> k * 3" and k0: "0 \<le> k" using k by auto
  have pool: "get_recommendations e ?mid (k * 3) = Some (map ?mk ?pool)"
    by (rule wf_get_recommendations [OF wf i k3])
  show ?thesis
  proof (cases "sim_scores (cosine_sim e ! i) k = []")
    case True
    then have "?pool = []" using sim_scores_empty_iff [OF k] by simp
    with True pool show ?thesis by (simp add: hybrid_recommendations_def)
  next
    case False
    then have ne: "map ?mk ?pool \<noteq> []" using sim_scores_empty_iff [OF k] by simp
    have sc: "map (spec_scored e 1 prefs) (map ?mk ?pool) = map ?sc ?pool"
      by (simp add: spec_scored_alpha_one)
    have "sorted_reverse hybrid_score (map ?sc ?pool) = map ?sc ?pool"
      by (intro sorted_reverse_id scored_alpha_one_desc sim_scores_desc k3)
    then have "sorted_reverse hybrid_score (map (spec_scored e 1 prefs) (map ?mk ?pool))
        = map ?sc ?pool"
      unfolding sc .
    then have "hybrid_recommendations e ?mid prefs k 1 = Inr (Some (py_slice (map ?sc ?pool) 0 k))"
      using hybrid_recommendations_wf [OF wf pool ne, of prefs 1] by simp
    also have "py_slice (map ?sc ?pool) 0 k = map ?sc (take (nat k) ?pool)"
      using k0 by (simp add: py_slice_nonneg take_map)
    also have "take (nat k) ?pool = sim_scores (cosine_sim e ! i) k"
      by (rule sim_scores_take [OF k])
    finally show ?thesis using False by simp
  qed
qed

text \<open>
  Claim C4, as amended.  In a well-formed engine, for an item id of the index mapping,
  any preferences and \<open>k \<ge> 1\<close>: \<open>get_recommendations\<close> returns a list; when that list
  is not empty, \<open>hybrid_recommendations\<close> with \<open>alpha = 1\<close> returns the same
  recommendations in the same order, each with a hybrid score equal to its rounded
  similarity score; when the list is empty (a corpus of one movie), the hybrid
  operation answers \<open>None\<close> (not found) instead of the empty list.
\<close>

theorem hybrid_alpha_one:
  assumes "wf_engine e" and "in_index (indices e) mid" and "1 \<le> k"
  shows "\<exists>recs. get_recommendations e mid k = Some recs
           \<and> hybrid_recommendations e mid prefs k 1 =
               (if recs = [] then Inr None
                else Inr (Some (map (\<lambda>r. r\<lparr>hybrid_score := Some (similarity_score r)\<rparr>) recs)))"
proof -
  from assms(1,2) obtain i where i: "i < length (movies_df e)" "movie_id (movies_df e ! i) = mid"
    by (rule wf_lookup_present)
  have k0: "0 \<le> k" using assms(3) by simp
  let ?mk = "\<lambda>p. make_rec (movies_df e ! fst p) (snd p)"
  have recs: "get_recommendations e mid k = Some (map ?mk (sim_scores (cosine_sim e ! i) k))"
    using wf_get_recommendations [OF assms(1) i(1) k0] i(2) by simp
  have "hybrid_recommendations e mid prefs k 1 =
      (if map ?mk (sim_scores (cosine_sim e ! i) k) = [] then Inr None
       else Inr (Some (map (\<lambda>r. r\<lparr>hybrid_score := Some (similarity_score r)\<rparr>)
                         (map ?mk (sim_scores (cosine_sim e ! i) k)))))"
    using hybrid_alpha_one_wf [OF assms(1) i(1) assms(3), of prefs] i(2)
    by (simp add: similarity_score_make_rec o_def)
  with recs show ?thesis by blast
qed

lemma demo_recs:
  "get_recommendations demo_engine 10 1 = Some [make_rec (demo_movie 20 ''Beta'' 2 7) (1 / 2)]"
  by (simp add: demo_eval)

theorem hybrid_alpha_one_witness:
  "wf_engine demo_engine \<and> in_index (indices demo_engine) 10 \<and> (1::int) \<le> 1
   \<and> get_recommendations demo_engine 10 1 = Some [make_rec (demo_movie 20 ''Beta'' 2 7) (1 / 2)]
   \<and> hybrid_recommendations demo_engine 10 [(20, 5), (30, 1)] 1 1 =
       Inr (Some [(make_rec (demo_movie 20 ''Beta'' 2 7) (1 / 2))\<lparr>hybrid_score := Some 50\<rparr>])"
proof -
  have h: "in_index (indices demo_engine) 10"
    by (simp add: in_index_def demo_engine_def)
  have k: "(1::int) \<le> 1" by simp
  have s: "similarity_score (make_rec (demo_movie 20 ''Beta'' 2 7) (1 / 2)) = 50"
    by (simp add: make_rec_def round2_def round_half_even_def)
  show ?thesis
    using hybrid_alpha_one [OF wf_demo_engine h k, of "[(20, 5), (30, 1)]"] wf_demo_engine h
      demo_recs s
    by simp
qed

theorem hybrid_alpha_one_counterexample:
  "wf_engine single_engine \<and> in_index (indices single_engine) 10 \<and> (1::int) \<le> 1
   \<and> get_recommendations single_engine 10 1 = Some []
   \<and> hybrid_recommendations single_engine 10 [] 1 1 = Inr None
   \<and> hybrid_recommendations single_engine 10 [] 1 1 \<noteq> Inr (get_recommendations single_engine 10 1)"
proof -
  have r: "get_recommendations single_engine 10 1 = Some []"
    by (simp add: get_recommendations_def single_engine_def series_getitem_def sim_scores_def
        py_slice_def sorted_reverse_def enumerate_row_def upt_rec)
  have r3: "get_recommendations single_engine 10 (1 * 3) = Some []"
    by (simp add: get_recommendations_def single_engine_def series_getitem_def sim_scores_def
        py_slice_def sorted_reverse_def enumerate_row_def upt_rec)
  have h: "hybrid_recommendations single_engine 10 [] 1 1 = Inr None"
    using r3 by (simp add: hybrid_recommendations_def)
  have "in_index (indices single_engine) 10"
    by (simp add: in_index_def single_engine_def)
  with r h wf_single_engine show ?thesis by simp
qed

subsection \<open>Shape of the recommendations\<close>

lemma recommendations_shape:
  assumes wf: "wf_engine e" and mid: "in_index (indices e) mid" and k: "1 \<le> k"
  shows "\<exists>i ps. series_getitem (indices e) mid = Scalar i
           \<and> ps = sim_scores (cosine_sim e ! i) k
           \<and> get_recommendations e mid k
               = Some (map (\<lambda>p. make_rec (movies_df e ! fst p) (snd p)) ps)
           \<and> length ps \<le> nat k
           \<and> sorted_wrt (\<lambda>a b. snd b \<le> snd a) ps
           \<and> (\<forall>v. sorted_wrt (\<lambda>a b. fst a < fst b) (filter (\<lambda>p. snd p = v) ps))
           \<and> (int (length (movies_df e)) < k + 1 \<longrightarrow> length ps = length (movies_df e) - 1)"
proof -
  from wf mid obtain i where i: "i < length (movies_df e)" "movie_id (movies_df e ! i) = mid"
    "series_getitem (indices e) mid = Scalar i"
    by (rule wf_lookup_present)
  have k0: "0 \<le> k" using k by simp
  have "get_recommendations e mid k
      = Some (map (\<lambda>p. make_rec (movies_df e ! fst p) (snd p)) (sim_scores (cosine_sim e ! i) k))"
    using wf_get_recommendations [OF wf i(1) k0] i(2) by simp
  moreover have "length (sim_scores (cosine_sim e ! i) k) \<le> nat k"
    by (simp add: length_sim_scores [OF k0])
  moreover have "int (length (movies_df e)) < k + 1 \<longrightarrow>
      length (sim_scores (cosine_sim e ! i) k) = length (movies_df e) - 1"
    using k0 by (auto simp: length_sim_scores [OF k0] wf_row_length [OF wf i(1)] min_def)
  ultimately show ?thesis
    using i(3) sim_scores_desc [OF k0] sim_scores_ties [OF k0] by blast
qed

lemmas twin_eval =
  get_recommendations_def twin_engine_def series_getitem_def sim_scores_def py_slice_def
  sorted_reverse_def enumerate_row_def upt_rec

text \<open>
  Claim C1.  The claim says that the recommendations for item \<open>i\<close> never contain \<open>i\<close>.
  The code drops the first entry of the sorted row, whatever it is.  In the engine of two
  movies with equal feature texts, where every similarity is 1, the stable sort leaves
  position 0 first, so the recommendations for the movie at position 1 (id 20) consist
  of that movie itself.
\<close>

theorem twin_recommends_itself:
  "wf_engine twin_engine \<and> in_index (indices twin_engine) 20
   \<and> get_recommendations twin_engine 20 1 = Some [make_rec (demo_movie 20 ''Alpha Again'' 1 6) 1]
   \<and> rec_id (make_rec (demo_movie 20 ''Alpha Again'' 1 6) 1) = 20"
proof -
  have "get_recommendations twin_engine 20 1 = Some [make_rec (demo_movie 20 ''Alpha Again'' 1 6) 1]"
    by (simp add: twin_eval)
  moreover have "in_index (indices twin_engine) 20"
    by (simp add: in_index_def twin_engine_def)
  moreover have "rec_id (make_rec (demo_movie 20 ''Alpha Again'' 1 6) 1) = 20"
    by (simp add: make_rec_def demo_movie_def)
  ultimately show ?thesis using wf_twin_engine by simp
qed

text \<open>
  Claim C2.  The claim says that the list has at most \<open>k\<close> entries in non-increasing
  order of similarity, entries of equal similarity in ascending order of position, and
  that a corpus of fewer than \<open>k + 1\<close> items gives all available neighbours.  The first
  three parts hold (\<open>recommendations_shape\<close>).  The last part fails in the engine of two
  movies with equal feature texts: with \<open>k = 2\<close> the only neighbour of the movie with id
  20 is the movie with id 10, and the list returned holds the movie 20 instead.
\<close>

theorem twin_neighbour_missing:
  "wf_engine twin_engine \<and> in_index (indices twin_engine) 20
   \<and> int (length (movies_df twin_engine)) < 2 + 1
   \<and> map_option (map rec_id) (get_recommendations twin_engine 20 2) = Some [20]
   \<and> 10 \<in> movie_id ` set (movies_df twin_engine)"
proof -
  have "map_option (map rec_id) (get_recommendations twin_engine 20 2) = Some [20]"
    by (simp add: twin_eval make_rec_def demo_movie_def)
  moreover have "in_index (indices twin_engine) 20"
    by (simp add: in_index_def twin_engine_def)
  moreover have "int (length (movies_df twin_engine)) < 2 + 1"
    "10 \<in> movie_id ` set (movies_df twin_engine)"
    by (simp_all add: twin_engine_def demo_movie_def)
  ultimately show ?thesis using wf_twin_engine by simp
qed

text \<open>
  Claim C8.  In a well-formed engine, \<open>because_you_liked\<close> first keeps the ids that are
  labels of the index mapping.  If none remains, the result is \<open>(None, None)\<close>: no
  source is available.  Otherwise one of the remaining ids is the source: the result is
  the title of the movie with that id, together with the content recommendations of
  \<open>get_recommendations\<close> for that id.
\<close>

theorem because_you_liked_source:
  assumes "wf_engine e"
  shows "(filter (in_index (indices e)) movie_ids = [] \<longrightarrow>
            because_you_liked e movie_ids top_n draw = Inr (None, None))
       \<and> (filter (in_index (indices e)) movie_ids \<noteq> [] \<longrightarrow>
            (\<exists>s \<in> set (filter (in_index (indices e)) movie_ids).
               \<exists>m \<in> set (movies_df e). movie_id m = s
                 \<and> because_you_liked e movie_ids top_n draw
                     = Inr (Some (title m), get_recommendations e s top_n)))"
proof (intro conjI impI)
  assume "filter (in_index (indices e)) movie_ids = []"
  then show "because_you_liked e movie_ids top_n draw = Inr (None, None)"
    by (simp add: because_you_liked_def)
next
  let ?valid = "filter (in_index (indices e)) movie_ids"
  let ?s = "?valid ! (draw mod length ?valid)"
  assume ne: "?valid \<noteq> []"
  then have "draw mod length ?valid < length ?valid" by simp
  then have s: "?s \<in> set ?valid" by (rule nth_mem)
  then have "in_index (indices e) ?s" by simp
  then obtain i where i: "i < length (movies_df e)" "movie_id (movies_df e ! i) = ?s"
    using wf_in_index [OF assms] by blast
  then have "movies_df e ! i \<in> set (filter (\<lambda>m. movie_id m = ?s) (movies_df e))"
    by simp
  then obtain m ms where ms: "filter (\<lambda>m. movie_id m = ?s) (movies_df e) = m # ms"
    by (cases "filter (\<lambda>m. movie_id m = ?s) (movies_df e)") auto
  then have "m \<in> set (filter (\<lambda>m. movie_id m = ?s) (movies_df e))" by simp
  then have m: "m \<in> set (movies_df e)" "movie_id m = ?s" by auto
  have "because_you_liked e movie_ids top_n draw
      = Inr (Some (title m), get_recommendations e ?s top_n)"
    using ne ms by (simp add: because_you_liked_def Let_def)
  with s m show "\<exists>s \<in> set ?valid. \<exists>m \<in> set (movies_df e). movie_id m = s
      \<and> because_you_liked e movie_ids top_n draw = Inr (Some (title m), get_recommendations e s top_n)"
    by blast
qed

theorem because_you_liked_source_witness:
  "wf_engine demo_engine
   \<and> filter (in_index (indices demo_engine)) [5, 20, 30] = [20, 30]
   \<and> because_you_liked demo_engine [5, 20, 30] 2 7
       = Inr (Some ''Up'', get_recommendations demo_engine 30 2)
   \<and> filter (in_index (indices demo_engine)) [5, 99] = []
   \<and> because_you_liked demo_engine [5, 99] 2 7 = Inr (None, None)"
proof -
  have v: "filter (in_index (indices demo_engine)) [5, 20, 30] = [20, 30]"
    by (simp add: in_index_def demo_engine_def)
  have n: "filter (in_index (indices demo_engine)) [5, 99] = []"
    by (simp add: in_index_def demo_engine_def)
  have b: "because_you_liked demo_engine [5, 20, 30] 2 7
       = Inr (Some ''Up'', get_recommendations demo_engine 30 2)"
  proof -
    have m: "filter (\<lambda>m. movie_id m = 30) (movies_df demo_engine) = [demo_movie 30 ''Up'' 1 8]"
      by (simp add: demo_engine_def demo_movie_def)
    have s: "[20, 30::int] ! (7 mod length [20, 30::int]) = 30" by code_simp
    show ?thesis
      unfolding because_you_liked_def Let_def v s m by (simp add: demo_movie_def)
  qed
  have "because_you_liked demo_engine [5, 99] 2 7 = Inr (None, None)"
    using because_you_liked_source [OF wf_demo_engine, of "[5, 99]" 2 7] n by blast
  with wf_demo_engine v n b show ?thesis by blast
qed

subsection \<open>Title search\<close>








subsection \<open>Pagination\<close>

lemma concat_take_pages:
  "concat (map (\<lambda>i. take L (drop (i * L) xs)) [0..<n]) = take (n * L) xs"
proof (induction n)
  case 0
  then show ?case by simp
next
  case (Suc n)
  have "Suc n * L = n * L + L" by simp
  then have "take (Suc n * L) xs = take (n * L) xs @ take L (drop (n * L) xs)"
    by (simp only: take_add)
  with Suc show ?case by simp
qed

lemma py_slice_page:
  assumes "0 < limit"
  shows "py_slice xs (int i * limit) (int i * limit + limit)
           = take (nat limit) (drop (i * nat limit) xs)"
proof -
  have a: "0 \<le> int i * limit" "0 \<le> int i * limit + limit"
    using assms by simp_all
  have "nat (int i * limit + limit) - nat (int i * limit) = nat limit"
    using assms a by (simp add: nat_add_distrib)
  moreover have "nat (int i * limit) = i * nat limit"
    using assms by (simp add: nat_mult_distrib)
  ultimately show ?thesis
    by (simp add: py_slice_nonneg [OF a])
qed


lemma concat_pages_slices:
  assumes limit: "0 < limit"
    and page: "\<And>i. page limit (int i * limit) = map f (take (nat limit) (drop (i * nat limit) xs))"
    and n: "int (length xs) \<le> int n * limit"
  shows "concat_pages page limit n = map f xs"
proof -
  have "concat_pages page limit n
      = concat (map (\<lambda>i. map f (take (nat limit) (drop (i * nat limit) xs))) [0..<n])"
    by (simp add: concat_pages_def page)
  also have "\<dots> = map f (concat (map (\<lambda>i. take (nat limit) (drop (i * nat limit) xs)) [0..<n]))"
    by (simp add: map_concat o_def)
  also have "\<dots> = map f (take (n * nat limit) xs)"
    by (simp only: concat_take_pages)
  also have "length xs \<le> n * nat limit"
  proof -
    have "int (n * nat limit) = int n * limit" using limit by simp
    with n show ?thesis by linarith
  qed
  then have "take (n * nat limit) xs = xs" by simp
  finally show ?thesis .
qed

lemma length_sort_values: "length (sort_values col ascending df) = length df"
proof -
  have "length (filter (\<lambda>m. col m \<noteq> None) df) + length (filter (\<lambda>m. col m = None) df)
      = length df"
    using sum_length_filter_compl [of "\<lambda>m. col m = None" df] by (simp add: add.commute)
  then show ?thesis
    by (simp add: sort_values_def Let_def length_sorted_reverse del: not_None_eq)
qed

lemma length_sort_frame: "length (sort_frame row key ascending df) = length df"
  by (simp add: sort_frame_def length_sort_values)



lemma search_pages:
  assumes "0 < limit" and "str_contains q title (movies_df e) = Some found"
    and "int (length found) \<le> int n * limit"
  shows "concat_pages (\<lambda>l off. page_of (search_movies e q l off)) limit n = format_movies found"
  unfolding format_movies_def
proof (rule concat_pages_slices [OF assms(1) _ assms(3)])
  fix i
  show "page_of (search_movies e q limit (int i * limit))
      = map format_single (take (nat limit) (drop (i * nat limit) found))"
    by (simp add: search_movies_def assms(2) Let_def page_of_def format_movies_def
        py_slice_page [OF assms(1)])
qed

lemma filter_pages:
  assumes "0 < limit" and "filtered_frame e a = Some filtered"
    and "int (length filtered) \<le> int n * limit"
  shows "concat_pages (\<lambda>l off. page_of (filter_movies e a l off)) limit n
           = format_movies (sort_frame (\<lambda>m. m) (sort_by a) (sort_order a = ''asc'') filtered)"
  unfolding format_movies_def
proof (rule concat_pages_slices [OF assms(1)])
  fix i
  show "page_of (filter_movies e a limit (int i * limit))
      = map format_single (take (nat limit) (drop (i * nat limit)
          (sort_frame (\<lambda>m. m) (sort_by a) (sort_order a = ''asc'') filtered)))"
    by (simp add: filter_movies_def assms(2) Let_def page_of_def format_movies_def
        py_slice_page [OF assms(1)])
next
  show "int (length (sort_frame (\<lambda>m. m) (sort_by a) (sort_order a = ''asc'') filtered)) \<le> int n * limit"
    using assms(3) by (simp add: length_sort_frame)
qed

subsection \<open>Queries leave the engine unchanged\<close>

lemma prefix_nth: "prefix xs ys \<Longrightarrow> i < length xs \<Longrightarrow> ys ! i = xs ! i"
  by (auto simp: prefix_def nth_append)

lemma prefix_list_update:
  "prefix h0 h \<Longrightarrow> length h0 \<le> a \<Longrightarrow> prefix h0 (h[a := v])"
  by (auto simp: prefix_def list_update_append)

lemma prefix_new_object: "prefix h0 h \<Longrightarrow> prefix h0 (snd (new_object v h))"
  by (simp add: new_object_def)

lemma fresh_new_object: "prefix h0 h \<Longrightarrow> fresh_var h0 (new_object v h)"
  by (auto simp: fresh_var_def new_object_def dest: prefix_length_le)

lemma fresh_df_select: "prefix h0 (snd s) \<Longrightarrow> fresh_var h0 (df_select P s)"
  by (simp add: df_select_def fresh_new_object)

lemma fresh_df_set_year: "fresh_var h0 s \<Longrightarrow> fresh_var h0 (df_set_year s)"
  by (simp add: fresh_var_def df_set_year_def prefix_list_update)

lemma fresh_prefix: "fresh_var h0 s \<Longrightarrow> prefix h0 (snd s)"
  by (simp add: fresh_var_def)

lemma fresh_select_from: "fresh_var h0 s \<Longrightarrow> fresh_var h0 (select_from b col s)"
  by (simp add: select_from_def fresh_df_select fresh_prefix split: option.splits)

lemma fresh_select_upto: "fresh_var h0 s \<Longrightarrow> fresh_var h0 (select_upto b col s)"
  by (simp add: select_upto_def fresh_df_select fresh_prefix split: option.splits)

lemma untouched_heap:
  "prefix (heap w) h \<Longrightarrow> engine_untouched w (w\<lparr>heap := h\<rparr>)"
  by (simp add: engine_untouched_def)

lemma untouched_refl: "engine_untouched w w"
  by (simp add: engine_untouched_def)

lemma untouched_trans:
  "engine_untouched w w1 \<Longrightarrow> engine_untouched w1 w2 \<Longrightarrow> engine_untouched w w2"
  by (auto simp: engine_untouched_def intro: prefix_order.trans)

lemma engine_of_untouched:
  assumes "engine_untouched w w'" and "engine_of w = Some e"
  shows "engine_of w' = Some e"
proof -
  from assms(2) have refs: "movies_ref w < length (heap w)" "credits_ref w < length (heap w)"
      "sim_ref w < length (heap w)" "indices_ref w < length (heap w)"
      "tfidf_ref w < length (heap w)"
    by (auto simp: engine_of_def split: if_splits)
  from assms(1) have p: "prefix (heap w) (heap w')"
    and r: "movies_ref w' = movies_ref w" "credits_ref w' = credits_ref w" "sim_ref w' = sim_ref w"
      "indices_ref w' = indices_ref w" "tfidf_ref w' = tfidf_ref w"
    by (simp_all add: engine_untouched_def)
  have len: "length (heap w) \<le> length (heap w')"
    using p by (rule prefix_length_le)
  have nth: "heap w' ! movies_ref w = heap w ! movies_ref w"
      "heap w' ! credits_ref w = heap w ! credits_ref w"
      "heap w' ! sim_ref w = heap w ! sim_ref w"
      "heap w' ! indices_ref w = heap w ! indices_ref w"
      "heap w' ! tfidf_ref w = heap w ! tfidf_ref w"
    using refs by (simp_all add: prefix_nth [OF p])
  have lt: "movies_ref w < length (heap w')" "credits_ref w < length (heap w')"
      "sim_ref w < length (heap w')" "indices_ref w < length (heap w')"
      "tfidf_ref w < length (heap w')"
    using refs len by simp_all
  have "engine_of w' = engine_of w"
    unfolding engine_of_def r nth using refs lt by simp
  with assms(2) show ?thesis by simp
qed

lemma filter_movies_st_untouched:
  "engine_untouched w (snd (filter_movies_st a limit offset w))"
proof -
  let ?copied = "new_object (Frame (frame_at (heap w) (movies_ref w))) (heap w)"
  let ?rated = "df_select (\<lambda>r. min_rating a \<le> vote_average (fst r)
                                \<and> vote_average (fst r) \<le> max_rating a) ?copied"
  have c: "fresh_var (heap w) ?copied" by (simp add: fresh_new_object)
  have r: "fresh_var (heap w) ?rated" by (intro fresh_df_select fresh_prefix c)
  show ?thesis
  proof (cases "select_genre (genre a) ?rated")
    case None
    then show ?thesis
      by (simp add: filter_movies_st_def Let_def untouched_heap fresh_prefix [OF r])
  next
    case (Some by_genre)
    then have g: "fresh_var (heap w) by_genre"
      using r
      by (auto simp: select_genre_def fresh_df_select fresh_prefix split: option.splits if_splits)
    let ?by_year = "if truthy (year_from a) \<or> truthy (year_to a)
                     then select_upto (year_to a) year_cell
                            (select_from (year_from a) year_cell (df_set_year by_genre))
                     else by_genre"
    let ?by_runtime = "select_upto (max_runtime a) (\<lambda>r. runtime (fst r))
                                 (select_from (min_runtime a) (\<lambda>r. runtime (fst r)) ?by_year)"
    have "fresh_var (heap w) ?by_year"
      using g by (simp add: fresh_select_upto fresh_select_from fresh_df_set_year)
    then have "fresh_var (heap w) ?by_runtime"
      by (intro fresh_select_upto fresh_select_from)
    then have "prefix (heap w) (snd ?by_runtime)" by (rule fresh_prefix)
    then show ?thesis
      using Some by (simp add: filter_movies_st_def Let_def untouched_heap prefix_new_object)
  qed
qed

lemma prefix_df_select: "prefix h0 (snd s) \<Longrightarrow> prefix h0 (snd (df_select P s))"
  by (simp add: df_select_def prefix_new_object)

lemma popular_st_untouched: "engine_untouched w (snd (get_popular_movies_st limit offset w))"
  by (simp add: get_popular_movies_st_def Let_def untouched_heap prefix_new_object)

lemma top_rated_st_untouched:
  "engine_untouched w (snd (get_top_rated_movies_st limit min_votes offset w))"
  by (simp add: get_top_rated_movies_st_def Let_def untouched_heap prefix_new_object
      prefix_df_select)

lemma search_st_untouched: "engine_untouched w (snd (search_movies_st q limit offset w))"
  by (simp add: search_movies_st_def Let_def untouched_heap untouched_refl prefix_new_object
      prefix_df_select split: option.splits)

lemma genres_st_untouched: "engine_untouched w (snd (get_all_genres_st names_of w))"
  by (simp add: get_all_genres_st_def untouched_refl)

lemma by_ids_st_untouched: "engine_untouched w (snd (get_movies_by_ids_st movie_ids w))"
  by (simp add: get_movies_by_ids_st_def Let_def untouched_heap prefix_df_select)

lemma new_dicts_shape:
  "fst (new_dicts rs h) = [length h..<length h + length rs]
   \<and> prefix h (snd (new_dicts rs h))
   \<and> length (snd (new_dicts rs h)) = length h + length rs"
proof (induction rs arbitrary: h)
  case Nil
  then show ?case by simp
next
  case (Cons r rs)
  from Cons.IH [of "h @ [Dict r]"]
  have ih: "fst (new_dicts rs (h @ [Dict r])) = [Suc (length h)..<Suc (length h) + length rs]"
    "prefix (h @ [Dict r]) (snd (new_dicts rs (h @ [Dict r])))"
    "length (snd (new_dicts rs (h @ [Dict r]))) = Suc (length h) + length rs"
    by simp_all
  from ih(2) have p: "prefix h (snd (new_dicts rs (h @ [Dict r])))"
    by (rule append_prefixD)
  have "length h < length h + length (r # rs)" by simp
  from upt_conv_Cons [OF this]
  have u: "[length h..<length h + length (r # rs)]
      = length h # [Suc (length h)..<Suc (length h) + length rs]"
    by simp
  have f: "fst (new_dicts (r # rs) h) = length h # fst (new_dicts rs (h @ [Dict r]))"
    "snd (new_dicts (r # rs) h) = snd (new_dicts rs (h @ [Dict r]))"
    by (simp_all add: new_object_def split: prod.splits)
  show ?case
    unfolding f u ih(1) using p ih(3) by simp
qed

lemma recommendations_st_shape:
  assumes "get_recommendations_st mid top_n w = (res, w1)"
  shows "engine_untouched w w1
       \<and> (\<forall>la. res = Some la \<longrightarrow>
             length (heap w) \<le> la \<and> la < length (heap w1)
             \<and> (\<forall>a \<in> set (list_at (heap w1) la). length (heap w) \<le> a))"
proof (cases "engine_of w")
  case None
  with assms show ?thesis by (auto simp: get_recommendations_st_def untouched_refl)
next
  case (Some e)
  show ?thesis
  proof (cases "get_recommendations e mid top_n")
    case None
    with Some assms show ?thesis by (auto simp: get_recommendations_st_def untouched_refl)
  next
    case (Some recs)
    let ?d = "new_dicts recs (heap w)"
    note d = new_dicts_shape [of recs "heap w"]
    from \<open>engine_of w = Some e\<close> Some assms
    have res: "res = Some (length (snd ?d))" and w1: "w1 = w\<lparr>heap := snd ?d @ [PyList (fst ?d)]\<rparr>"
      by (auto simp: get_recommendations_st_def new_object_def split: prod.splits)
    have "prefix (heap w) (snd ?d @ [PyList (fst ?d)])"
      using d by (simp add: prefix_order.trans)
    then have u: "engine_untouched w w1"
      unfolding w1 by (rule untouched_heap)
    have "list_at (heap w1) (length (snd ?d)) = fst ?d"
      by (simp add: w1 list_at_def)
    then show ?thesis
      using u d res by (simp add: w1)
  qed
qed

lemma score_loop_prefix:
  "prefix h0 h \<Longrightarrow> \<forall>a \<in> set as. length h0 \<le> a \<Longrightarrow>
     prefix h0 (snd (score_loop e alpha L D as h))"
proof (induction as arbitrary: h)
  case Nil
  then show ?case by simp
next
  case (Cons a as)
  then show ?case
    by (auto simp: prefix_list_update split: option.splits sum.splits)
qed

lemma hybrid_st_untouched:
  "engine_untouched w (snd (hybrid_recommendations_st mid prefs top_n alpha w))"
proof (cases "engine_of w")
  case None
  then show ?thesis by (simp add: hybrid_recommendations_st_def untouched_refl)
next
  case (Some e)
  obtain res w1 where g: "get_recommendations_st mid (top_n * 3) w = (res, w1)"
    by (cases "get_recommendations_st mid (top_n * 3) w")
  note sh = recommendations_st_shape [OF g]
  then have u: "engine_untouched w w1" by simp
  show ?thesis
  proof (cases res)
    case None
    with Some g u show ?thesis by (simp add: hybrid_recommendations_st_def)
  next
    case (Some la)
    with sh have la: "length (heap w) \<le> la"
      and as: "\<forall>a \<in> set (list_at (heap w1) la). length (heap w) \<le> a"
      by simp_all
    have p1: "prefix (heap w) (heap w1)"
      using u by (simp add: engine_untouched_def)
    let ?L = "liked_ids_of prefs" and ?D = "disliked_ids_of prefs"
    let ?loop = "score_loop e alpha ?L ?D (list_at (heap w1) la) (heap w1)"
    have p2: "prefix (heap w) (snd ?loop)"
      using p1 as by (rule score_loop_prefix)
    have refs: "engine_untouched w (w1\<lparr>heap := h\<rparr>)" if "prefix (heap w) h" for h
      using u that by (simp add: engine_untouched_def)
    show ?thesis
    proof (cases "list_at (heap w1) la = []")
      case True
      with \<open>engine_of w = Some e\<close> g Some u show ?thesis
        by (simp add: hybrid_recommendations_st_def)
    next
      case False
      obtain err h2 where l: "?loop = (err, h2)" by (cases ?loop)
      with p2 have h2: "prefix (heap w) h2" by simp
      have h3: "prefix (heap w) (h2[la := v])" for v
        using h2 la by (rule prefix_list_update)
      show ?thesis
        using \<open>engine_of w = Some e\<close> g Some False l
        by (cases err)
          (simp_all add: hybrid_recommendations_st_def Let_def refs h2 h3 prefix_new_object)
    qed
  qed
qed

lemma recommendations_st_untouched:
  "engine_untouched w (snd (get_recommendations_st mid top_n w))"
  using recommendations_st_shape [of mid top_n w] by (cases "get_recommendations_st mid top_n w") simp

lemma because_st_untouched:
  "engine_untouched w (snd (because_you_liked_st movie_ids top_n draw w))"
proof (cases "engine_of w")
  case None
  then show ?thesis by (simp add: because_you_liked_st_def untouched_refl)
next
  case (Some e)
  let ?valid = "filter (in_index (indices e)) movie_ids"
  show ?thesis
  proof (cases "?valid = []")
    case True
    with Some show ?thesis by (simp add: because_you_liked_st_def untouched_refl)
  next
    case False
    obtain res w1 where g: "get_recommendations_st (?valid ! (draw mod length ?valid)) top_n w = (res, w1)"
      by (cases "get_recommendations_st (?valid ! (draw mod length ?valid)) top_n w")
    from recommendations_st_shape [OF g] have u: "engine_untouched w w1" by simp
    then have p: "prefix (heap w) (heap w1)" by (simp add: engine_untouched_def)
    have "engine_untouched w (w1\<lparr>heap := snd (df_select P (movies_ref w1, heap w1))\<rparr>)" for P
      using u prefix_df_select [of "heap w" "(movies_ref w1, heap w1)" P] p
      by (simp add: engine_untouched_def)
    with Some False g show ?thesis
      by (simp add: because_you_liked_st_def Let_def split: list.splits)
  qed
qed

lemma run_query_untouched: "engine_untouched w (run_query names_of q w)"
  by (cases q)
    (simp_all add: recommendations_st_untouched hybrid_st_untouched because_st_untouched
      popular_st_untouched top_rated_st_untouched search_st_untouched filter_movies_st_untouched
      genres_st_untouched by_ids_st_untouched)

text \<open>
  Claim C9.  Let the attributes of the engine denote the engine \<open>e\<close> in the store.
  After any query operation (recommendations, hybrid recommendations, because you
  liked, popular, top rated, search, filter, genres, lookup by ids), with any
  arguments, the attributes point to the same objects, every object that was in the
  store is unchanged, and so the attributes denote the same engine \<open>e\<close>: the same
  movies frame, similarity matrix, index mapping and TF-IDF matrix.
\<close>

theorem queries_leave_engine_unchanged:
  assumes "engine_of w = Some e"
  shows "engine_untouched w (run_query names_of q w)
       \<and> engine_of (run_query names_of q w) = Some e"
  using run_query_untouched [of w names_of q] assms by (simp add: engine_of_untouched)

lemma engine_of_demo_world: "engine_of demo_world = Some demo_engine"
  by (simp add: engine_of_def demo_world_def demo_engine_def)

theorem queries_leave_engine_unchanged_witness:
  "engine_of demo_world = Some demo_engine
   \<and> engine_of (run_query (\<lambda>s. []) (Filter (default_args\<lparr>year_from := Some 1990\<rparr>) 2 0) demo_world)
       = Some demo_engine
   \<and> length (heap (run_query (\<lambda>s. []) (Filter (default_args\<lparr>year_from := Some 1990\<rparr>) 2 0)
                       demo_world)) = 10
   \<and> engine_of (run_query (\<lambda>s. []) (Hybrid 10 [(20, 5), (30, 1), (99, 4)] 1 (7 / 10)) demo_world)
       = Some demo_engine
   \<and> length (heap (run_query (\<lambda>s. []) (Hybrid 10 [(20, 5), (30, 1), (99, 4)] 1 (7 / 10))
                       demo_world)) = 9"
proof -
  have "length (heap (run_query (\<lambda>s. []) (Filter (default_args\<lparr>year_from := Some 1990\<rparr>) 2 0)
                       demo_world)) = 10"
    by code_simp
  moreover
  have "length (heap (run_query (\<lambda>s. []) (Hybrid 10 [(20, 5), (30, 1), (99, 4)] 1 (7 / 10))
                       demo_world)) = 9"
    by code_simp
  ultimately show ?thesis
    using queries_leave_engine_unchanged [OF engine_of_demo_world, of "\<lambda>s. []"
        "Filter (default_args\<lparr>year_from := Some 1990\<rparr>) 2 0"]
      queries_leave_engine_unchanged [OF engine_of_demo_world, of "\<lambda>s. []"
        "Hybrid 10 [(20, 5), (30, 1), (99, 4)] 1 (7 / 10)"]
      engine_of_demo_world
    by simp
qed

subsection \<open>The queries on the store return the results of the queries on the engine\<close>

lemma rows_of_new_object: "rows_of (new_object (Frame rows) h) = rows"
  by (simp add: rows_of_def new_object_def frame_at_def)

lemma rows_of_df_select: "rows_of (df_select P s) = filter P (rows_of s)"
  by (simp add: df_select_def rows_of_new_object)

lemma rows_of_df_set_year:
  "fst s < length (snd s) \<Longrightarrow>
     rows_of (df_set_year s) = map (\<lambda>r. (fst r, Some (year_of (fst r)))) (rows_of s)"
  by (simp add: df_set_year_def rows_of_def frame_at_def)

lemma rows_of_select_from: "rows_of (select_from b col s) = keep_from b col (rows_of s)"
  by (simp add: select_from_def keep_from_def rows_of_df_select split: option.splits)

lemma rows_of_select_upto: "rows_of (select_upto b col s) = keep_upto b col (rows_of s)"
  by (simp add: select_upto_def keep_upto_def rows_of_df_select split: option.splits)

lemma keep_from_map: "map f (keep_from b (\<lambda>r. col (f r)) rows) = keep_from b col (map f rows)"
  by (simp add: keep_from_def filter_map o_def split: option.splits)

lemma keep_upto_map: "map f (keep_upto b (\<lambda>r. col (f r)) rows) = keep_upto b col (map f rows)"
  by (simp add: keep_upto_def filter_map o_def split: option.splits)

lemma keep_from_cong:
  "(\<And>r. r \<in> set rows \<Longrightarrow> col r = col' r) \<Longrightarrow> keep_from b col rows = keep_from b col' rows"
  by (auto simp: keep_from_def split: option.splits intro: filter_cong)

lemma keep_upto_cong:
  "(\<And>r. r \<in> set rows \<Longrightarrow> col r = col' r) \<Longrightarrow> keep_upto b col rows = keep_upto b col' rows"
  by (auto simp: keep_upto_def split: option.splits intro: filter_cong)

lemma set_keep_from: "set (keep_from b col rows) \<subseteq> set rows"
  by (auto simp: keep_from_def split: option.splits)

lemma insort_key_map:
  "map f (insort_key (\<lambda>x. c (f x)) x xs) = insort_key c (f x) (map f xs)"
  by (induction xs) simp_all

lemma sort_key_map: "map f (sort_key (\<lambda>x. c (f x)) xs) = sort_key c (map f xs)"
  by (induction xs) (simp_all add: insort_key_map)

lemma sorted_reverse_map:
  "map f (sorted_reverse (\<lambda>x. c (f x)) xs) = sorted_reverse c (map f xs)"
proof -
  have "map f (sorted_reverse (\<lambda>x. c (f x)) xs) = rev (map f (sort_key (\<lambda>x. c (f x)) (rev xs)))"
    by (simp add: sorted_reverse_def rev_map)
  also have "\<dots> = rev (sort_key c (map f (rev xs)))"
    by (simp only: sort_key_map)
  also have "\<dots> = sorted_reverse c (map f xs)"
    by (simp add: sorted_reverse_def rev_map)
  finally show ?thesis .
qed

lemma sort_values_map:
  "map f (sort_values (\<lambda>x. c (f x)) ascending xs) = sort_values c ascending (map f xs)"
proof -
  have p: "filter (\<lambda>m. c m \<noteq> None) (map f xs) = map f (filter (\<lambda>x. c (f x) \<noteq> None) xs)"
    and m: "filter (\<lambda>m. c m = None) (map f xs) = map f (filter (\<lambda>x. c (f x) = None) xs)"
    by (simp_all add: filter_map o_def del: not_None_eq)
  show ?thesis
    unfolding sort_values_def Let_def p m
    by (simp add: sort_key_map sorted_reverse_map del: not_None_eq)
qed

lemma sort_frame_map:
  "map f (sort_frame (\<lambda>r. row (f r)) key ascending xs) = sort_frame row key ascending (map f xs)"
  unfolding sort_frame_def
  using sort_values_map [of f "\<lambda>r. Some (vote_average (row r))" ascending xs]
    sort_values_map [of f "\<lambda>r. release_date (row r)" ascending xs]
    sort_values_map [of f "\<lambda>r. Some (revenue (row r))" ascending xs]
    sort_values_map [of f "\<lambda>r. Some (title (row r))" ascending xs]
    sort_values_map [of f "\<lambda>r. Some (popularity (row r))" ascending xs]
  by simp

lemma nlargest_map: "map f (nlargest n (\<lambda>x. c (f x)) xs) = nlargest n c (map f xs)"
proof -
  have "map f (nlargest n (\<lambda>x. c (f x)) xs)
      = take (nat n) (map f (sorted_reverse (\<lambda>x. c (f x)) xs))"
    by (simp add: nlargest_def take_map)
  then show ?thesis
    by (simp only: sorted_reverse_map nlargest_def)
qed

lemma py_slice_map: "map f (py_slice xs a b) = py_slice (map f xs) a b"
  by (simp add: py_slice_def Let_def take_map drop_map)

lemma engine_of_rows:
  "engine_of w = Some e \<Longrightarrow> map fst (frame_at (heap w) (movies_ref w)) = movies_df e"
  by (auto simp: engine_of_def frame_at_def split: if_splits obj.splits)

lemma set_keep_upto: "set (keep_upto b col rows) \<subseteq> set rows"
  by (auto simp: keep_upto_def split: option.splits)

lemma year_cell_set:
  "r \<in> set (map (\<lambda>r. (fst r, Some (year_of (fst r)))) G) \<Longrightarrow> year_cell r = year_of (fst r)"
  by (auto simp: year_cell_def)

lemma year_step:
  "map fst (keep_upto yt year_cell (keep_from yf year_cell
              (map (\<lambda>r. (fst r, Some (year_of (fst r)))) G)))
     = keep_upto yt year_of (keep_from yf year_of (map fst G))"
proof -
  let ?Y = "map (\<lambda>r. (fst r, Some (year_of (fst r)))) G"
  have a: "keep_from yf year_cell ?Y = keep_from yf (\<lambda>r. year_of (fst r)) ?Y"
    by (rule keep_from_cong) (rule year_cell_set)
  have b: "keep_upto yt year_cell (keep_from yf (\<lambda>r. year_of (fst r)) ?Y)
      = keep_upto yt (\<lambda>r. year_of (fst r)) (keep_from yf (\<lambda>r. year_of (fst r)) ?Y)"
  proof (rule keep_upto_cong)
    fix r assume "r \<in> set (keep_from yf (\<lambda>r. year_of (fst r)) ?Y)"
    then have "r \<in> set ?Y" by (rule set_keep_from [THEN subsetD])
    then show "year_cell r = year_of (fst r)" by (rule year_cell_set)
  qed
  have c: "map fst ?Y = map fst G" by simp
  have "map fst (keep_upto yt year_cell (keep_from yf year_cell ?Y))
      = map fst (keep_upto yt (\<lambda>r. year_of (fst r)) (keep_from yf (\<lambda>r. year_of (fst r)) ?Y))"
    by (simp only: a b)
  also have "\<dots> = keep_upto yt year_of (keep_from yf year_of (map fst ?Y))"
    by (simp only: keep_upto_map keep_from_map)
  finally show ?thesis by (simp only: c)
qed

lemma keep_from_not_truthy: "\<not> truthy b \<Longrightarrow> keep_from b col rows = rows"
  by (simp add: keep_from_def truthy_def split: option.splits)

lemma keep_upto_not_truthy: "\<not> truthy b \<Longrightarrow> keep_upto b col rows = rows"
  by (simp add: keep_upto_def truthy_def split: option.splits)

lemma fresh_var_bound: "fresh_var h0 s \<Longrightarrow> fst s < length (snd s)"
  by (simp add: fresh_var_def)

lemma by_year_rows:
  assumes "fresh_var h0 bg"
  shows "map fst (rows_of (if truthy yf \<or> truthy yt
                           then select_upto yt year_cell (select_from yf year_cell (df_set_year bg))
                           else bg))
           = keep_upto yt year_of (keep_from yf year_of (map fst (rows_of bg)))"
proof (cases "truthy yf \<or> truthy yt")
  case True
  have "rows_of (select_upto yt year_cell (select_from yf year_cell (df_set_year bg)))
      = keep_upto yt year_cell (keep_from yf year_cell
          (map (\<lambda>r. (fst r, Some (year_of (fst r)))) (rows_of bg)))"
    by (simp only: rows_of_select_upto rows_of_select_from
        rows_of_df_set_year [OF fresh_var_bound [OF assms]])
  with True show ?thesis by (simp only: year_step if_True)
next
  case False
  then have n: "\<not> truthy yf" "\<not> truthy yt" by simp_all
  have "keep_upto yt year_of (keep_from yf year_of (map fst (rows_of bg))) = map fst (rows_of bg)"
    by (simp only: keep_from_not_truthy [OF n(1)] keep_upto_not_truthy [OF n(2)])
  with False show ?thesis by simp
qed

lemma by_runtime_rows:
  "map fst (rows_of (select_upto b2 (\<lambda>r. runtime (fst r))
                       (select_from b1 (\<lambda>r. runtime (fst r)) s)))
     = keep_upto b2 runtime (keep_from b1 runtime (map fst (rows_of s)))"
  by (simp only: rows_of_select_upto rows_of_select_from keep_upto_map keep_from_map)

lemma select_genre_result:
  assumes "fresh_var h0 s"
  shows "(case select_genre g s of
            None \<Rightarrow> genre_filter g genres (map fst (rows_of s)) = None
          | Some s' \<Rightarrow> genre_filter g genres (map fst (rows_of s)) = Some (map fst (rows_of s'))
                         \<and> fresh_var h0 s')"
proof (cases g)
  case None
  with assms show ?thesis by (simp add: select_genre_def genre_filter_def)
next
  case (Some pat)
  show ?thesis
  proof (cases "pat = []")
    case True
    with Some assms show ?thesis by (simp add: select_genre_def genre_filter_def)
  next
    case False
    show ?thesis
    proof (cases "compile_pattern pat")
      case None
      with Some False show ?thesis
        by (simp add: select_genre_def genre_filter_def str_contains_def)
    next
      case (Some ps)
      have "fresh_var h0 (df_select (\<lambda>r. re_search ps (genres (fst r))) s)"
        by (intro fresh_df_select fresh_prefix assms)
      with Some False \<open>g = Some pat\<close> show ?thesis
        by (simp add: select_genre_def genre_filter_def str_contains_def rows_of_df_select
            filter_map o_def)
    qed
  qed
qed

lemma filter_movies_st_result:
  assumes "engine_of w = Some e"
  shows "fst (filter_movies_st a limit offset w) = filter_movies e a limit offset"
proof -
  let ?rows0 = "frame_at (heap w) (movies_ref w)"
  let ?copied = "new_object (Frame ?rows0) (heap w)"
  let ?P = "\<lambda>m. min_rating a \<le> vote_average m \<and> vote_average m \<le> max_rating a"
  let ?rated = "df_select (\<lambda>r. ?P (fst r)) ?copied"
  let ?rated_p = "filter ?P (movies_df e)"
  have rows0: "map fst ?rows0 = movies_df e" by (rule engine_of_rows [OF assms])
  have fr: "fresh_var (heap w) ?rated"
    by (intro fresh_df_select fresh_prefix fresh_new_object) simp
  have rated: "map fst (rows_of ?rated) = ?rated_p"
    by (simp add: rows_of_df_select rows_of_new_object filter_map o_def flip: rows0)
  note sg = select_genre_result [OF fr, of "genre a", unfolded rated]
  show ?thesis
  proof (cases "select_genre (genre a) ?rated")
    case None
    with sg have "genre_filter (genre a) genres ?rated_p = None" by simp
    then have "filtered_frame e a = None"
      by (simp add: filtered_frame_def Let_def)
    with None show ?thesis
      by (simp add: filter_movies_st_def filter_movies_def Let_def)
  next
    case (Some bg)
    with sg have gp: "genre_filter (genre a) genres ?rated_p = Some (map fst (rows_of bg))"
      and fg: "fresh_var (heap w) bg"
      by simp_all
    define by_year where "by_year =
        (if truthy (year_from a) \<or> truthy (year_to a)
         then select_upto (year_to a) year_cell
                (select_from (year_from a) year_cell (df_set_year bg))
         else bg)"
    define by_runtime where "by_runtime =
        select_upto (max_runtime a) (\<lambda>r. runtime (fst r))
          (select_from (min_runtime a) (\<lambda>r. runtime (fst r)) by_year)"
    define F where "F = keep_upto (max_runtime a) runtime
                     (keep_from (min_runtime a) runtime
                       (keep_upto (year_to a) year_of
                          (keep_from (year_from a) year_of (map fst (rows_of bg)))))"
    have "map fst (rows_of by_year)
        = keep_upto (year_to a) year_of (keep_from (year_from a) year_of (map fst (rows_of bg)))"
      unfolding by_year_def by (rule by_year_rows [OF fg])
    then have rt: "map fst (rows_of by_runtime) = F"
      unfolding by_runtime_def F_def by (simp only: by_runtime_rows)
    then have len: "length (rows_of by_runtime) = length F"
      using length_map [of fst "rows_of by_runtime"] by simp
    have srt: "map fst (sort_frame fst (sort_by a) (sort_order a = ''asc'') (rows_of by_runtime))
        = sort_frame (\<lambda>m. m) (sort_by a) (sort_order a = ''asc'') F"
      using sort_frame_map [of fst "\<lambda>m. m" "sort_by a" "sort_order a = ''asc''" "rows_of by_runtime"]
      unfolding rt by simp
    have page: "map fst (py_slice (sort_frame fst (sort_by a) (sort_order a = ''asc'')
                                     (rows_of by_runtime)) offset (offset + limit))
        = py_slice (sort_frame (\<lambda>m. m) (sort_by a) (sort_order a = ''asc'') F)
            offset (offset + limit)"
      by (simp only: py_slice_map srt)
    have "filter_movies_st a limit offset w =
        (let sorted_df = new_object
                                (Frame (sort_frame fst (sort_by a) (sort_order a = ''asc'')
                                          (rows_of by_runtime)))
                                (snd by_runtime);
             page = new_object (Frame (py_slice (rows_of sorted_df) offset (offset + limit)))
                           (snd sorted_df)
         in (Some (format_movies (map fst (rows_of page)), length (rows_of by_runtime)),
             w\<lparr>heap := snd page\<rparr>))"
      unfolding filter_movies_st_def Let_def Some by_runtime_def by_year_def by simp
    then have "fst (filter_movies_st a limit offset w)
        = Some (format_movies (map fst (py_slice (sort_frame fst (sort_by a) (sort_order a = ''asc'')
                                     (rows_of by_runtime)) offset (offset + limit))),
                length (rows_of by_runtime))"
      by (simp add: Let_def rows_of_new_object)
    then have "fst (filter_movies_st a limit offset w)
        = Some (format_movies (py_slice (sort_frame (\<lambda>m. m) (sort_by a) (sort_order a = ''asc'') F)
                  offset (offset + limit)), length F)"
      by (simp only: page len)
    moreover have "filtered_frame e a = Some F"
      unfolding F_def by (simp add: filtered_frame_def Let_def gp)
    ultimately show ?thesis
      by (simp add: filter_movies_def Let_def)
  qed
qed

lemma rows_of_engine_frame: "rows_of (movies_ref w, heap w) = frame_at (heap w) (movies_ref w)"
  by (simp add: rows_of_def)

lemma popular_st_result:
  assumes "engine_of w = Some e"
  shows "fst (get_popular_movies_st limit offset w) = get_popular_movies e limit offset"
proof -
  let ?rows0 = "frame_at (heap w) (movies_ref w)"
  have rows0: "map fst ?rows0 = movies_df e" by (rule engine_of_rows [OF assms])
  have n: "map fst (nlargest (offset + limit) (\<lambda>r. popularity (fst r)) ?rows0)
      = nlargest (offset + limit) popularity (movies_df e)"
    using nlargest_map [of fst "offset + limit" popularity ?rows0] by (simp only: rows0)
  have len: "length ?rows0 = length (movies_df e)"
    using length_map [of fst ?rows0] by (simp only: rows0)
  have "fst (get_popular_movies_st limit offset w)
      = (format_movies (map fst (py_slice (nlargest (offset + limit) (\<lambda>r. popularity (fst r)) ?rows0)
                                   offset (offset + limit))), length ?rows0)"
    by (simp add: get_popular_movies_st_def Let_def rows_of_new_object)
  then show ?thesis
    by (simp only: py_slice_map n len get_popular_movies_def Let_def)
qed

lemma top_rated_st_result:
  assumes "engine_of w = Some e"
  shows "fst (get_top_rated_movies_st limit min_votes offset w)
           = get_top_rated_movies e limit min_votes offset"
proof -
  let ?rows0 = "frame_at (heap w) (movies_ref w)"
  let ?q = "filter (\<lambda>r. min_votes \<le> vote_count (fst r)) ?rows0"
  let ?qp = "filter (\<lambda>m. min_votes \<le> vote_count m) (movies_df e)"
  have rows0: "map fst ?rows0 = movies_df e" by (rule engine_of_rows [OF assms])
  have q: "map fst ?q = ?qp"
    by (simp add: filter_map o_def flip: rows0)
  have n: "map fst (nlargest (offset + limit) (\<lambda>r. vote_average (fst r)) ?q)
      = nlargest (offset + limit) vote_average ?qp"
    using nlargest_map [of fst "offset + limit" vote_average ?q] by (simp only: q)
  have len: "length ?q = length ?qp"
    using length_map [of fst ?q] by (simp only: q)
  have "fst (get_top_rated_movies_st limit min_votes offset w)
      = (format_movies (map fst (py_slice (nlargest (offset + limit) (\<lambda>r. vote_average (fst r)) ?q)
                                   offset (offset + limit))), length ?q)"
    by (simp add: get_top_rated_movies_st_def Let_def rows_of_new_object rows_of_df_select
        rows_of_engine_frame)
  then show ?thesis
    by (simp only: py_slice_map n len get_top_rated_movies_def Let_def)
qed

lemma search_st_result:
  assumes "engine_of w = Some e"
  shows "fst (search_movies_st q limit offset w) = search_movies e q limit offset"
proof (cases "compile_pattern q")
  case None
  then show ?thesis by (simp add: search_movies_st_def search_movies_def str_contains_def)
next
  case (Some ps)
  let ?rows0 = "frame_at (heap w) (movies_ref w)"
  let ?f = "filter (\<lambda>r. re_search ps (title (fst r))) ?rows0"
  let ?fp = "filter (\<lambda>m. re_search ps (title m)) (movies_df e)"
  have rows0: "map fst ?rows0 = movies_df e" by (rule engine_of_rows [OF assms])
  have f: "map fst ?f = ?fp"
    by (simp add: filter_map o_def flip: rows0)
  have len: "length ?f = length ?fp"
    using length_map [of fst ?f] by (simp only: f)
  have "fst (search_movies_st q limit offset w)
      = Some (format_movies (map fst (py_slice ?f offset (offset + limit))), length ?f)"
    using Some
    by (simp add: search_movies_st_def Let_def rows_of_new_object rows_of_df_select
        rows_of_engine_frame)
  then have "fst (search_movies_st q limit offset w)
      = Some (format_movies (py_slice ?fp offset (offset + limit)), length ?fp)"
    by (simp only: py_slice_map f len)
  with Some show ?thesis
    by (simp add: search_movies_def str_contains_def Let_def)
qed

lemma genres_st_result:
  assumes "engine_of w = Some e"
  shows "fst (get_all_genres_st names_of w) = get_all_genres names_of e"
proof -
  have "map (\<lambda>r. names_of (genres (fst r))) (frame_at (heap w) (movies_ref w))
      = map (\<lambda>m. names_of (genres m)) (map fst (frame_at (heap w) (movies_ref w)))"
    by (simp add: o_def)
  then show ?thesis
    by (simp only: get_all_genres_st_def get_all_genres_def engine_of_rows [OF assms] fst_conv)
qed

lemma fold_map_rows:
  "fold (\<lambda>r mp. mp(movie_id (fst r) \<mapsto> format_single (fst r))) rows m0
     = fold (\<lambda>m mp. mp(movie_id m \<mapsto> format_single m)) (map fst rows) m0"
  by (induction rows arbitrary: m0) simp_all

lemma by_ids_st_result:
  assumes "engine_of w = Some e"
  shows "fst (get_movies_by_ids_st movie_ids w) = get_movies_by_ids e movie_ids"
proof -
  let ?rows0 = "frame_at (heap w) (movies_ref w)"
  have rows0: "map fst ?rows0 = movies_df e" by (rule engine_of_rows [OF assms])
  have s: "map fst (filter (\<lambda>r. movie_id (fst r) \<in> set movie_ids) ?rows0)
      = filter (\<lambda>m. movie_id m \<in> set movie_ids) (movies_df e)"
    by (simp add: filter_map o_def flip: rows0)
  show ?thesis
    by (simp add: get_movies_by_ids_st_def get_movies_by_ids_def Let_def rows_of_df_select
        rows_of_engine_frame fold_map_rows s)
qed

lemma new_dicts_heap: "snd (new_dicts rs h) = h @ map Dict rs"
proof (induction rs arbitrary: h)
  case Nil
  then show ?case by simp
next
  case (Cons r rs)
  have "snd (new_dicts (r # rs) h) = snd (new_dicts rs (h @ [Dict r]))"
    by (simp add: new_object_def split: prod.splits)
  also have "\<dots> = (h @ [Dict r]) @ map Dict rs" by (rule Cons.IH)
  finally show ?case by simp
qed

lemma new_dicts_addrs: "fst (new_dicts rs h) = [length h..<length h + length rs]"
  using new_dicts_shape [of rs h] by simp

lemma map_filter_Some: "map f as = map Some rs \<Longrightarrow> List.map_filter f as = rs"
proof (induction as arbitrary: rs)
  case Nil
  then show ?case by (simp add: List.map_filter_simps)
next
  case (Cons a as)
  then obtain r rs' where "rs = r # rs'" "f a = Some r" "map f as = map Some rs'"
    by (cases rs) auto
  with Cons.IH show ?case by (simp add: List.map_filter_simps)
qed

lemma rec_at_new_dicts:
  "map (rec_at (h @ map Dict rs @ ext)) [length h..<length h + length rs] = map Some rs"
proof (rule nth_equalityI)
  show "length (map (rec_at (h @ map Dict rs @ ext)) [length h..<length h + length rs])
      = length (map Some rs)"
    by simp
next
  fix i assume "i < length (map (rec_at (h @ map Dict rs @ ext)) [length h..<length h + length rs])"
  then have i: "i < length rs" by simp
  then have "(h @ map Dict rs @ ext) ! (length h + i) = Dict (rs ! i)"
    by (simp add: nth_append)
  with i show "map (rec_at (h @ map Dict rs @ ext)) [length h..<length h + length rs] ! i
      = map Some rs ! i"
    by (simp add: rec_at_def)
qed

lemma recommendations_st_unfold:
  assumes "engine_of w = Some e" and "get_recommendations e mid top_n = Some recs"
  shows "get_recommendations_st mid top_n w =
           (Some (length (heap w) + length recs),
            w\<lparr>heap := heap w @ map Dict recs
                         @ [PyList [length (heap w)..<length (heap w) + length recs]]\<rparr>)"
proof -
  obtain as h1 where d: "new_dicts recs (heap w) = (as, h1)"
    by (cases "new_dicts recs (heap w)")
  then have "as = [length (heap w)..<length (heap w) + length recs]"
    and "h1 = heap w @ map Dict recs"
    using new_dicts_addrs [of recs "heap w"] new_dicts_heap [of recs "heap w"] by simp_all
  with d assms show ?thesis
    by (simp add: get_recommendations_st_def new_object_def)
qed

lemma recommendations_st_result:
  assumes "engine_of w = Some e" and "get_recommendations_st mid top_n w = (res, w1)"
  shows "map_option (\<lambda>la. List.map_filter (rec_at (heap w1)) (list_at (heap w1) la)) res
           = get_recommendations e mid top_n"
proof (cases "get_recommendations e mid top_n")
  case None
  with assms show ?thesis by (auto simp: get_recommendations_st_def)
next
  case (Some recs)
  let ?n = "length (heap w)"
  let ?as = "[?n..<?n + length recs]"
  from recommendations_st_unfold [OF assms(1) Some] assms(2)
  have res: "res = Some (?n + length recs)"
    and w1: "heap w1 = heap w @ map Dict recs @ [PyList ?as]"
    by auto
  have l: "list_at (heap w1) (?n + length recs) = ?as"
    by (simp add: w1 list_at_def nth_append)
  have "map (rec_at (heap w1)) ?as = map Some recs"
    unfolding w1 by (rule rec_at_new_dicts)
  then have "List.map_filter (rec_at (heap w1)) ?as = recs"
    by (rule map_filter_Some)
  with res l Some show ?thesis by simp
qed

lemma frame_at_untouched:
  assumes "engine_untouched w w1" and "engine_of w = Some e"
  shows "frame_at (heap w1) (movies_ref w1) = frame_at (heap w) (movies_ref w)"
proof -
  from assms(2) have r: "movies_ref w < length (heap w)"
    by (auto simp: engine_of_def split: if_splits)
  from assms(1) have p: "prefix (heap w) (heap w1)" and m: "movies_ref w1 = movies_ref w"
    by (simp_all add: engine_untouched_def)
  have "movies_ref w < length (heap w1)"
    using r prefix_length_le [OF p] by simp
  with r show ?thesis
    by (simp add: frame_at_def m prefix_nth [OF p])
qed

lemma because_st_result:
  assumes "engine_of w = Some e"
  shows "fst (because_you_liked_st movie_ids top_n draw w) = because_you_liked e movie_ids top_n draw"
proof (cases "filter (in_index (indices e)) movie_ids = []")
  case True
  with assms show ?thesis
    by (simp add: because_you_liked_st_def because_you_liked_def)
next
  case False
  let ?valid = "filter (in_index (indices e)) movie_ids"
  let ?s = "?valid ! (draw mod length ?valid)"
  obtain res w1 where g: "get_recommendations_st ?s top_n w = (res, w1)"
    by (cases "get_recommendations_st ?s top_n w")
  have shown: "map_option (\<lambda>la. List.map_filter (rec_at (heap w1)) (list_at (heap w1) la)) res
      = get_recommendations e ?s top_n"
    by (rule recommendations_st_result [OF assms g])
  have u: "engine_untouched w w1"
    using recommendations_st_shape [OF g] by simp
  have rows: "map fst (frame_at (heap w1) (movies_ref w1)) = movies_df e"
    using frame_at_untouched [OF u assms] engine_of_rows [OF assms] by simp
  let ?sel = "filter (\<lambda>r. movie_id (fst r) = ?s) (frame_at (heap w1) (movies_ref w1))"
  have sel: "map fst ?sel = filter (\<lambda>m. movie_id m = ?s) (movies_df e)"
    by (simp add: filter_map o_def flip: rows)
  have st: "fst (because_you_liked_st movie_ids top_n draw w)
      = (case ?sel of [] \<Rightarrow> Inl IndexError
         | r # rs \<Rightarrow> Inr (Some (title (fst r)), get_recommendations e ?s top_n))"
    using assms False g shown
    by (simp add: because_you_liked_st_def Let_def rows_of_df_select rows_of_engine_frame
        split: list.splits)
  have pure: "because_you_liked e movie_ids top_n draw
      = (case map fst ?sel of [] \<Rightarrow> Inl IndexError
         | m # ms \<Rightarrow> Inr (Some (title m), get_recommendations e ?s top_n))"
    using False by (simp add: because_you_liked_def Let_def sel)
  show ?thesis
    unfolding st pure by (cases ?sel) simp_all
qed

lemma rec_at_update:
  "a < length H \<Longrightarrow> rec_at (H[a := Dict r]) b = (if b = a then Some r else rec_at H b)"
  by (simp add: rec_at_def)

lemma rec_at_Some_bound: "rec_at H a = Some r \<Longrightarrow> a < length H"
  by (simp add: rec_at_def split: if_splits)

lemma score_loop_result:
  assumes "distinct as" and "map (rec_at H) as = map Some rs"
  shows "case score_all e alpha L D rs of
           Inl err \<Rightarrow> fst (score_loop e alpha L D as H) = Some err
         | Inr rs' \<Rightarrow>
             fst (score_loop e alpha L D as H) = None
             \<and> map (rec_at (snd (score_loop e alpha L D as H))) as = map Some rs'
             \<and> length (snd (score_loop e alpha L D as H)) = length H
             \<and> (\<forall>b. b \<notin> set as \<longrightarrow> rec_at (snd (score_loop e alpha L D as H)) b = rec_at H b)"
  using assms
proof (induction as arbitrary: rs H)
  case Nil
  then show ?case by simp
next
  case (Cons a as)
  from Cons.prems(2) obtain r rs0 where rs: "rs = r # rs0" and a: "rec_at H a = Some r"
    and tl: "map (rec_at H) as = map Some rs0"
    by (cases rs) auto
  from Cons.prems(1) have na: "a \<notin> set as" and d: "distinct as" by simp_all
  have lt: "a < length H" using a by (rule rec_at_Some_bound)
  show ?case
  proof (cases "score_rec e alpha L D r")
    case (Inl err)
    with rs a show ?thesis by simp
  next
    case (Inr r')
    let ?H = "H[a := Dict r']"
    have "map (rec_at ?H) as = map (rec_at H) as"
      using na by (simp add: rec_at_update [OF lt])
    with tl have tl': "map (rec_at ?H) as = map Some rs0" by simp
    note ih = Cons.IH [OF d tl']
    have loop: "score_loop e alpha L D (a # as) H = score_loop e alpha L D as ?H"
      using a Inr by simp
    show ?thesis
    proof (cases "score_all e alpha L D rs0")
      case (Inl err)
      with ih have "fst (score_loop e alpha L D as ?H) = Some err" by simp
      moreover have "score_all e alpha L D rs = Inl err"
        using rs Inr Inl by simp
      ultimately show ?thesis unfolding loop by simp
    next
      case inr: (Inr rs0')
      let ?F = "snd (score_loop e alpha L D as ?H)"
      from ih inr have f: "fst (score_loop e alpha L D as ?H) = None"
        and m: "map (rec_at ?F) as = map Some rs0'"
        and l: "length ?F = length ?H"
        and o: "\<forall>b. b \<notin> set as \<longrightarrow> rec_at ?F b = rec_at ?H b"
        by simp_all
      from o na have fa: "rec_at ?F a = Some r'"
        by (simp add: rec_at_update [OF lt])
      have other: "\<forall>b. b \<notin> set (a # as) \<longrightarrow> rec_at ?F b = rec_at H b"
        using o by (simp add: rec_at_update [OF lt])
      have sa: "score_all e alpha L D rs = Inr (r' # rs0')"
        using rs Inr inr by simp
      show ?thesis
        unfolding loop sa using f m l fa other by simp
    qed
  qed
qed

lemma sorted_slice_deref:
  assumes "map (rec_at h2) as = map Some scored"
  shows "map (rec_at h2) (py_slice (sorted_reverse (hybrid_key h2) as) 0 k)
           = map Some (py_slice (sorted_reverse hybrid_score scored) 0 k)"
proof -
  let ?c = "\<lambda>ro. case ro of None \<Rightarrow> None | Some r \<Rightarrow> hybrid_score r"
  have key: "hybrid_key h2 = (\<lambda>a. ?c (rec_at h2 a))"
    by (rule ext) (simp add: hybrid_key_def)
  have "map (rec_at h2) (sorted_reverse (hybrid_key h2) as)
      = sorted_reverse ?c (map (rec_at h2) as)"
    unfolding key by (rule sorted_reverse_map)
  also have "\<dots> = sorted_reverse ?c (map Some scored)"
    by (simp only: assms)
  also have "\<dots> = map Some (sorted_reverse (\<lambda>r. ?c (Some r)) scored)"
    by (rule sorted_reverse_map [symmetric])
  also have "(\<lambda>r. ?c (Some r)) = hybrid_score" by (rule ext) simp
  finally have "map (rec_at h2) (sorted_reverse (hybrid_key h2) as)
      = map Some (sorted_reverse hybrid_score scored)" .
  then show ?thesis
    by (simp only: py_slice_map)
qed

lemma hybrid_st_result:
  assumes "engine_of w = Some e"
  shows "fst (hybrid_recommendations_st mid prefs top_n alpha w)
           = hybrid_recommendations e mid prefs top_n alpha"
proof (cases "get_recommendations e mid (top_n * 3)")
  case None
  with assms show ?thesis
    by (simp add: hybrid_recommendations_st_def hybrid_recommendations_def
        get_recommendations_st_def)
next
  case (Some pool)
  let ?n = "length (heap w)"
  let ?as = "[?n..<?n + length pool]"
  let ?la = "?n + length pool"
  let ?H1 = "heap w @ map Dict pool @ [PyList ?as]"
  let ?L = "liked_ids_of prefs" and ?D = "disliked_ids_of prefs"
  note g = recommendations_st_unfold [OF assms Some]
  have l: "list_at ?H1 ?la = ?as"
    by (simp add: list_at_def nth_append)
  show ?thesis
  proof (cases "pool = []")
    case True
    with assms Some g show ?thesis
      by (simp add: hybrid_recommendations_st_def hybrid_recommendations_def list_at_def)
  next
    case False
    then have ne: "?as \<noteq> []" by simp
    obtain p ps where pool: "pool = p # ps" using False by (cases pool) auto
    have m: "map (rec_at ?H1) ?as = map Some pool" by (rule rec_at_new_dicts)
    note sl = score_loop_result [OF distinct_upt m, of e alpha ?L ?D]
    obtain err h2 where loop: "score_loop e alpha ?L ?D ?as ?H1 = (err, h2)"
      by (cases "score_loop e alpha ?L ?D ?as ?H1")
    have st_err: "fst (hybrid_recommendations_st mid prefs top_n alpha w) = Inl x"
      if "err = Some x" for x
      using assms g l ne loop that
      by (simp add: hybrid_recommendations_st_def Let_def del: upt_eq_Nil_conv)
    have st_ok: "fst (hybrid_recommendations_st mid prefs top_n alpha w)
        = Inr (Some (List.map_filter
            (rec_at (h2[?la := PyList (sorted_reverse (hybrid_key h2) ?as)]
                      @ [PyList (py_slice (sorted_reverse (hybrid_key h2) ?as) 0 top_n)]))
            (list_at (h2[?la := PyList (sorted_reverse (hybrid_key h2) ?as)]
                      @ [PyList (py_slice (sorted_reverse (hybrid_key h2) ?as) 0 top_n)])
               (length (h2[?la := PyList (sorted_reverse (hybrid_key h2) ?as)])))))"
      if "err = None"
      using assms g l ne loop that
      by (simp add: hybrid_recommendations_st_def Let_def new_object_def del: upt_eq_Nil_conv)
    show ?thesis
    proof (cases "score_all e alpha ?L ?D pool")
      case (Inl x)
      with sl loop have "err = Some x" by simp
      from st_err [OF this] Inl Some pool show ?thesis
        by (simp add: hybrid_recommendations_def)
    next
      case (Inr scored)
      with sl loop have err: "err = None"
        and d: "map (rec_at h2) ?as = map Some scored"
        and len: "length h2 = length ?H1"
        by simp_all
      let ?sorted = "sorted_reverse (hybrid_key h2) ?as"
      let ?sl = "py_slice ?sorted 0 top_n"
      let ?H4 = "h2[?la := PyList ?sorted] @ [PyList ?sl]"
      have sub: "set ?sl \<subseteq> set ?as"
        using set_py_slice [of ?sorted 0 top_n] by (simp add: set_sorted_reverse)
      have "map (rec_at ?H4) ?sl = map (rec_at h2) ?sl"
      proof (rule map_cong [OF refl])
        fix a assume "a \<in> set ?sl"
        with sub have "a \<in> set ?as" by blast
        then have a: "a < ?la" by simp
        with len have "a < length h2" by simp
        with a show "rec_at ?H4 a = rec_at h2 a"
          by (simp add: rec_at_def nth_append)
      qed
      also have "\<dots> = map Some (py_slice (sorted_reverse hybrid_score scored) 0 top_n)"
        by (rule sorted_slice_deref [OF d])
      finally have "List.map_filter (rec_at ?H4) ?sl
          = py_slice (sorted_reverse hybrid_score scored) 0 top_n"
        by (rule map_filter_Some)
      moreover have "list_at ?H4 (length (h2[?la := PyList ?sorted])) = ?sl"
        by (simp add: list_at_def nth_append)
      ultimately have "fst (hybrid_recommendations_st mid prefs top_n alpha w)
          = Inr (Some (py_slice (sorted_reverse hybrid_score scored) 0 top_n))"
        unfolding st_ok [OF err] by (simp only:)
      with Inr Some pool show ?thesis
        by (simp add: hybrid_recommendations_def)
    qed
  qed
qed

subsection \<open>When the query item is left out\<close>

lemma enumerate_row_mem: "p \<in> set (enumerate_row row) \<longleftrightarrow> fst p < length row \<and> snd p = row ! fst p"
proof (cases p)
  case (Pair a b)
  have "(a, b) \<in> set (zip [0..<length row] row) \<longleftrightarrow> a < length row \<and> b = row ! a"
  proof
    assume "(a, b) \<in> set (zip [0..<length row] row)"
    then obtain n where "[0..<length row] ! n = a" "row ! n = b" "n < length row"
      by (auto simp: in_set_zip)
    then show "a < length row \<and> b = row ! a" by simp
  next
    assume "a < length row \<and> b = row ! a"
    then show "(a, b) \<in> set (zip [0..<length row] row)"
      by (auto simp: in_set_zip intro!: exI [of _ a])
  qed
  with Pair show ?thesis by (simp add: enumerate_row_def)
qed

lemma distinct_enumerate_row: "distinct (enumerate_row row)"
proof -
  have "distinct (map fst (enumerate_row row))"
    by (simp add: enumerate_row_def)
  then show ?thesis by (simp add: distinct_map)
qed

lemma distinct_sorted_reverse: "distinct (sorted_reverse f xs) = distinct xs"
  by (simp add: sorted_reverse_def)

lemma self_excluded_when_strict_max:
  assumes i: "i < length row"
    and mx: "\<forall>j < length row. j \<noteq> i \<longrightarrow> row ! j < row ! i"
    and k: "0 \<le> top_n"
  shows "i \<notin> fst ` set (sim_scores row top_n)"
proof -
  let ?S = "sorted_reverse snd (enumerate_row row)"
  have mem: "(i, row ! i) \<in> set ?S"
    using i by (simp add: set_sorted_reverse enumerate_row_mem)
  then obtain p T where S: "?S = p # T" by (cases ?S) auto
  have desc: "sorted_wrt (\<lambda>a b. snd b \<le> snd a) (p # T)"
    using sorted_reverse_desc [of snd "enumerate_row row"] by (simp only: S)
  have "p \<in> set ?S" by (simp add: S)
  then have "p \<in> set (enumerate_row row)" by (simp only: set_sorted_reverse)
  then have p: "fst p < length row" "snd p = row ! fst p"
    by (simp_all add: enumerate_row_mem)
  have "fst p = i"
  proof (rule ccontr)
    assume ne: "fst p \<noteq> i"
    with mem S have "(i, row ! i) \<in> set T" by (cases p) auto
    with desc have "row ! i \<le> snd p" by auto
    moreover from mx p ne have "snd p < row ! i" by simp
    ultimately show False by simp
  qed
  have dist: "distinct (p # T)"
    using distinct_enumerate_row [of row] by (simp only: distinct_sorted_reverse S [symmetric])
  have "i \<notin> fst ` set T"
  proof
    assume "i \<in> fst ` set T"
    then obtain q where q: "q \<in> set T" "fst q = i" by auto
    then have "q \<in> set ?S" by (simp add: S)
    then have "q \<in> set (enumerate_row row)" by (simp only: set_sorted_reverse)
    then have "snd q = row ! i" using q(2) by (simp add: enumerate_row_mem)
    with q(2) p \<open>fst p = i\<close> have "q = p" by (simp add: prod_eq_iff)
    with q(1) dist show False by simp
  qed
  moreover have "set (sim_scores row top_n) \<subseteq> set T"
    unfolding sim_scores_eq [OF k] S by (simp add: set_take_subset)
  ultimately show ?thesis by blast
qed

subsection \<open>The hybrid score, for every library\<close>




























lemma spec_scored_simple: "spec_scored_with simple_library e alpha prefs c = spec_scored e alpha prefs c"
  by (simp add: spec_scored_with_def spec_scored_def simple_library_def)




text \<open>Without unique ids the loops can raise: the candidate with the repeated id has a
  sub-series as its position, and the first liked id of the index makes \<^verbatim>\<open>float\<close>
  fail.\<close>

lemma repeated_id_raises:
  "hybrid_recommendations_with lib repeated_engine 10 [(10, 5)] 1 alpha = Inl TypeError"
  by (simp add: hybrid_recommendations_with_def get_recommendations_with_def repeated_engine_def
      series_getitem_def sim_scores_def py_slice_def sorted_reverse_def enumerate_row_def upt_rec
      make_rec_with_def demo_movie_def liked_ids_of_def disliked_ids_of_def score_rec_with_def
      collab_boost_def in_index_def sim_at_def)

subsection \<open>Pagination of search and filter, for every library\<close>







text \<open>With the library of the first sections, search and filter are those of the first
  sections, where a pattern outside the modelled ones counts as one that does not
  compile, and as long as the filter does not meet a date column without strings.\<close>

lemma search_with_simple:
  "search_movies_with simple_library e q limit offset =
     (case search_movies e q limit offset of None \<Rightarrow> Inl PatternError | Some r \<Rightarrow> Inr r)"
  by (simp add: search_movies_with_def search_movies_def str_contains_def simple_library_def
      Let_def split: option.splits)

lemma year_with_simple: "year_with simple_library m = map_option of_int (year_of m)"
  by (simp add: year_with_def year_of_def simple_library_def simple_to_numeric_def Let_def
      split: option.splits)

lemma year_from_simple: "year_from_filter b (year_with simple_library) df = keep_from b year_of df"
  by (auto simp: year_from_filter_def keep_from_def year_with_simple
      split: option.splits intro!: filter_cong)

lemma year_to_simple: "year_to_filter b (year_with simple_library) df = keep_upto b year_of df"
  by (auto simp: year_to_filter_def keep_upto_def year_with_simple
      split: option.splits intro!: filter_cong)

lemma simple_sort_frame:
  "simple_sort_values (sort_col key) ascending df = sort_frame (\<lambda>m. m) key ascending df"
  by (simp add: simple_sort_values_def sort_col_def sort_frame_def)

lemma filtered_with_simple:
  assumes "\<not> ((truthy (year_from a) \<or> truthy (year_to a)) \<and> no_date_strings e)"
  shows "filtered_frame_with simple_library e a =
     (case filtered_frame e a of None \<Rightarrow> Inl PatternError | Some f \<Rightarrow> Inr f)"
proof (cases "truthy (year_from a) \<or> truthy (year_to a)")
  case True
  with assms have "\<not> no_date_strings e" by simp
  with True show ?thesis
    by (auto simp: filtered_frame_with_def filtered_frame_def genre_filter_def str_contains_def
        simple_library_def [THEN arg_cong, of lib_contains] year_from_simple year_to_simple Let_def
        split: option.splits)
next
  case False
  then have "keep_from (year_from a) year_of = (\<lambda>df. df)" "keep_upto (year_to a) year_of = (\<lambda>df. df)"
    by (auto simp: keep_from_not_truthy keep_upto_not_truthy)
  with False show ?thesis
    by (auto simp: filtered_frame_with_def filtered_frame_def genre_filter_def str_contains_def
        simple_library_def [THEN arg_cong, of lib_contains] Let_def
        split: option.splits)
qed

lemma filter_with_simple:
  assumes "\<not> ((truthy (year_from a) \<or> truthy (year_to a)) \<and> no_date_strings e)"
  shows "filter_movies_with simple_library e a limit offset =
     (case filter_movies e a limit offset of None \<Rightarrow> Inl PatternError | Some r \<Rightarrow> Inr r)"
proof -
  have "lib_sort_values simple_library = simple_sort_values"
    by (simp add: simple_library_def)
  then show ?thesis
    by (simp add: filter_movies_with_def filter_movies_def filtered_with_simple [OF assms]
        simple_sort_frame Let_def split: option.splits)
qed

end
